theory Spec2Isabelle
  imports Complex_Main
begin

section \<open>JavaScript values of the generator\<close>

text \<open>
  The generator \<^verbatim>\<open>maxpool_webgpu.ts\<close> computes with JavaScript numbers that hold
  integers (tensor dimensions, strides, paddings). A JavaScript number is a double: the
  integers of magnitude up to \<open>2^53\<close> are all numbers, a larger integer is a number only
  when it fits 53 significant bits, and the result of an operation is the exact result
  rounded to the nearest number, to the one with an even significand in a tie, or an
  infinity beyond the largest number. \<open>Num n\<close> is the number that holds the integer \<open>n\<close>
  (the two zeros of JavaScript, which print and compare alike, are both \<open>Num 0\<close>).
  Reading an array past its end gives \<open>undefined\<close>, and arithmetic on \<open>undefined\<close> gives
  \<open>NaN\<close>; both are values of the model. The fields of a geometry are integers of the
  model; one that is not a number is no input of the source, and the statements about
  the numbers of a geometry are for safe integers, of magnitude below \<open>2^53\<close>.
\<close>

datatype jsval = Num int | Undefined | NaN | Infinity | MinusInfinity

text \<open>The number nearest to an integer. \<open>exponentOf m\<close> counts the low bits that do not
  fit the 53 bits of the significand, and \<open>roundToEven m\<close> rounds them away.\<close>

function exponentOf :: "nat \<Rightarrow> nat" where
  "exponentOf m = (if m < 2 ^ 53 then 0 else Suc (exponentOf (m div 2)))"
  by pat_completeness auto
termination
  by (relation "measure (\<lambda>m. m)") auto

declare exponentOf.simps [simp del]

definition roundToEven :: "nat \<Rightarrow> nat" where
  "roundToEven m =
     (let e = exponentOf m; q = m div 2 ^ e; r = m mod 2 ^ e
      in if 2 ^ e < 2 * r \<or> (2 * r = 2 ^ e \<and> odd q) then (q + 1) * 2 ^ e else q * 2 ^ e)"

definition js_number :: "int \<Rightarrow> jsval" where
  "js_number n =
     (let m = roundToEven (nat \<bar>n\<bar>)
      in if 2 ^ 1024 \<le> m then (if n < 0 then MinusInfinity else Infinity)
         else Num (sgn n * int m))"

text \<open>The product of an infinity and a number of sign \<open>s\<close>.\<close>

definition signedInfinity :: "int \<Rightarrow> jsval" where
  "signedInfinity s = (if s = 0 then NaN else if s < 0 then MinusInfinity else Infinity)"

text \<open>The operator \<^verbatim>\<open>*\<close>: the exact product of two numbers, rounded.\<close>

instantiation jsval :: times
begin

fun times_jsval :: "jsval \<Rightarrow> jsval \<Rightarrow> jsval" where
  "times_jsval (Num a) (Num b) = js_number (a * b)"
| "times_jsval (Num a) Infinity = signedInfinity a"
| "times_jsval (Num a) MinusInfinity = signedInfinity (- a)"
| "times_jsval Infinity (Num b) = signedInfinity b"
| "times_jsval MinusInfinity (Num b) = signedInfinity (- b)"
| "times_jsval Infinity Infinity = Infinity"
| "times_jsval Infinity MinusInfinity = MinusInfinity"
| "times_jsval MinusInfinity Infinity = MinusInfinity"
| "times_jsval MinusInfinity MinusInfinity = Infinity"
| "times_jsval _ _ = NaN"

instance ..

end

text \<open>\<^verbatim>\<open>arr[i]\<close> on an array of numbers.\<close>

definition js_index :: "int list \<Rightarrow> int \<Rightarrow> jsval" where
  "js_index arr i = (if 0 \<le> i \<and> i < int (length arr) then Num (arr ! nat i) else Undefined)"

text \<open>\<^verbatim>\<open>Math.ceil(p / t)\<close> for a divisor \<open>t\<close> that is an entry of \<^verbatim>\<open>tileSize\<close>, 1 or
  2 (the source divides by nothing else): the quotient of a number by 1 or 2 is exact,
  and its ceiling is a number.\<close>

fun math_ceil_div :: "jsval \<Rightarrow> int \<Rightarrow> jsval" where
  "math_ceil_div (Num p) t = Num \<lceil>real_of_int p / real_of_int t\<rceil>"
| "math_ceil_div Infinity t = (if t < 0 then MinusInfinity else Infinity)"
| "math_ceil_div MinusInfinity t = (if t < 0 then Infinity else MinusInfinity)"
| "math_ceil_div _ t = NaN"

text \<open>The text of a number inside a template literal: \<^verbatim>\<open>`${n}`\<close>. An integer of
  magnitude below \<open>10^21\<close> is printed in decimal digits (\<open>showInt\<close>); the geometries of the
  statements about the text hold such integers only.\<close>

definition digitChar :: "nat \<Rightarrow> char" where
  "digitChar n = ''0123456789'' ! n"

function showNat :: "nat \<Rightarrow> string" where
  "showNat n = (if n < 10 then [digitChar n] else showNat (n div 10) @ [digitChar (n mod 10)])"
  by pat_completeness auto
termination
  by (relation "measure (\<lambda>n. n)") auto

declare showNat.simps [simp del]

definition showInt :: "int \<Rightarrow> string" where
  "showInt n = (if n < 0 then CHR ''-'' # showNat (nat (- n)) else showNat (nat n))"

fun showNum :: "jsval \<Rightarrow> string" where
  "showNum (Num n) = showInt n"
| "showNum Undefined = ''undefined''"
| "showNum NaN = ''NaN''"
| "showNum Infinity = ''Infinity''"
| "showNum MinusInfinity = ''-Infinity''"

text \<open>\<^verbatim>\<open>xs.join(',')\<close>.\<close>

fun join :: "string list \<Rightarrow> string" where
  "join [] = []"
| "join [s] = s"
| "join (s # t # ss) = s @ '','' @ join (t # ss)"

datatype js_error = Error string

section \<open>The pooling geometry and the program object\<close>

text \<open>The fields of \<^verbatim>\<open>Conv2DInfo\<close> that the constructor reads
  (\<^verbatim>\<open>convInfo.padInfo.top\<close> and \<^verbatim>\<open>convInfo.padInfo.left\<close> are the fields
  \<open>pad_top\<close> and \<open>pad_left\<close> of \<open>padInfo\<close>).\<close>

record PadInfo =
  pad_top :: int
  pad_left :: int

record Conv2DInfo =
  strideHeight :: int
  strideWidth :: int
  dilationHeight :: int
  dilationWidth :: int
  padInfo :: PadInfo
  effectiveFilterHeight :: int
  effectiveFilterWidth :: int
  inHeight :: int
  inWidth :: int
  inShape :: "int list"
  outShape :: "int list"

text \<open>The fields of a \<^verbatim>\<open>MaxPoolProgram\<close> object.\<close>

record program =
  outputShape :: "int list"
  userCode :: string
  dispatch :: "jsval \<times> jsval \<times> jsval"
  variableNames :: "string list"
  uniforms :: string
  tileSize :: "int \<times> int \<times> int"

text \<open>The field initialisers of the class and the constant \<^verbatim>\<open>dispatchArrangement\<close>
  of the constructor.\<close>

definition init_variableNames :: "string list" where
  "init_variableNames = [''x'']"

definition init_uniforms :: string where
  "init_uniforms = ''uvec4 inpShape, outShape; uvec2 pad, stride;''"

definition init_tileSize :: "int \<times> int \<times> int" where
  "init_tileSize = (2, 2, 1)"

definition dispatchArrangement :: "int list list" where
  "dispatchArrangement = [[1], [2], [0, 3]]"

section \<open>Dispatch sizes\<close>

definition arrayProduct :: "jsval list \<Rightarrow> js_error + jsval" where
  "arrayProduct arr =
     (if length arr = 0 then Inl (Error ''Cannot find product of empty array.'')
      else Inr (foldl (\<lambda>product a. product * a) (Num 1) arr))"

text \<open>\<^verbatim>\<open>arrayProduct(dispatchArrangement[i].map(d => this.outputShape[d]))\<close>.\<close>

definition groupProduct :: "int list \<Rightarrow> nat \<Rightarrow> js_error + jsval" where
  "groupProduct outputShape' i = arrayProduct (map (js_index outputShape') (dispatchArrangement ! i))"

text \<open>The three entries of \<^verbatim>\<open>this.dispatch\<close>, evaluated from left to right; an error
  of \<open>arrayProduct\<close> leaves the constructor at once.\<close>

definition computeDispatch :: "int list \<Rightarrow> int \<times> int \<times> int \<Rightarrow> js_error + (jsval \<times> jsval \<times> jsval)" where
  "computeDispatch outputShape' tileSize' =
     (case tileSize' of (t0, t1, t2) \<Rightarrow>
      (case groupProduct outputShape' 0 of Inl e \<Rightarrow> Inl e | Inr p0 \<Rightarrow>
      (case groupProduct outputShape' 1 of Inl e \<Rightarrow> Inl e | Inr p1 \<Rightarrow>
      (case groupProduct outputShape' 2 of Inl e \<Rightarrow> Inl e | Inr p2 \<Rightarrow>
         Inr (math_ceil_div p0 t0, math_ceil_div p1 t1, math_ceil_div p2 t2)))))"

section \<open>Generation of the shader text\<close>

text \<open>
  Modelled from the spec: \<^verbatim>\<open>util.computeStrides\<close> of tfjs-core, which is not among
  the sources. The spec (4.2) describes the row-major strides of a shape: the stride of
  the last dimension is 1 and each preceding stride is the product of the sizes of the
  dimensions after it. The result lists the strides of all dimensions but the last, whose
  stride 1 stays implicit: the loop of \<open>generateGetOutputCoords\<close> divides by every entry
  and, at the last entry \<open>j\<close>, assigns the dimension \<^verbatim>\<open>arr[j + 1]\<close> as well.
\<close>

fun computeStrides :: "'a::times list \<Rightarrow> 'a list" where
  "computeStrides (a # b # c # shape) =
     (let strides = computeStrides (b # c # shape) in (hd strides * b) # strides)"
| "computeStrides [a, b] = [b]"
| "computeStrides _ = []"

definition globalInvocationPositions :: "string list" where
  "globalInvocationPositions = [''x'', ''y'', ''z'']"

text \<open>The text appended for one stride \<open>j\<close> of a group of several dimensions.\<close>

definition strideStr :: "nat \<Rightarrow> int list \<Rightarrow> jsval list \<Rightarrow> nat \<Rightarrow> string" where
  "strideStr i arr strides j =
     ''\<newline>'' @
     ''              uint d'' @ showNum (js_index arr (int j)) @ '' = index'' @ showNat i @
       '' / '' @ showNum (strides ! j) @ '';\<newline>'' @
     ''            '' @
     (if j = length strides - 1 then
        ''\<newline>'' @
        ''                uint d'' @ showNum (js_index arr (int j + 1)) @ '' = index'' @ showNat i @
          '' - d'' @ showNum (js_index arr (int j)) @ '' * '' @ showNum (strides ! j) @ '';\<newline>'' @
        ''              ''
      else
        ''index'' @ showNat i @ '' -= d'' @ showNum (js_index arr (int j)) @ '' * '' @
          showNum (strides ! j) @ '';'')"

text \<open>The text appended for the group \<open>arr\<close> of dispatch axis \<open>i\<close>.\<close>

definition groupStr :: "int list \<Rightarrow> nat \<Rightarrow> int list \<Rightarrow> string" where
  "groupStr outputShape' i arr =
     (if length arr = 1 then
        ''uint d'' @ showNum (js_index arr 0) @ '' = gl_GlobalInvocationID.'' @
          globalInvocationPositions ! i @ '';''
      else
        (let strides = computeStrides (map (js_index outputShape') arr) in
         ''uint index'' @ showNat i @ '' = \<newline>'' @
         ''            gl_GlobalInvocationID.'' @ globalInvocationPositions ! i @ '';'' @
         concat (map (strideStr i arr strides) [0..<length strides])))"

text \<open>\<^verbatim>\<open>getCoordsDataType\<close> of the shader preprocessor is not among the sources and the
  spec says only that it names the coordinate type of a rank; it is a parameter of the
  generator, and it may raise.\<close>

definition generateGetOutputCoords ::
  "(nat \<Rightarrow> js_error + string) \<Rightarrow> int list \<Rightarrow> int list \<Rightarrow> js_error + string" where
  "generateGetOutputCoords getCoordsDataType outputShape' shape =
     (case getCoordsDataType (length shape) of Inl e \<Rightarrow> Inl e | Inr dtype \<Rightarrow>
      (let gatherDimensionsStr =
             concat (map (\<lambda>i. groupStr outputShape' i (dispatchArrangement ! i))
                      [0..<length dispatchArrangement]);
           dimensions = map (\<lambda>i. ''d'' @ showNat i) [0..<length shape]
       in Inr (
         ''\<newline>'' @
         ''        '' @ dtype @ '' getOutputCoords() {\<newline>'' @
         ''          '' @ gatherDimensionsStr @ ''\<newline>'' @
         ''\<newline>'' @
         ''          return '' @ dtype @ ''('' @ join dimensions @ '');\<newline>'' @
         ''        }\<newline>'' @
         ''      '')))"

definition userCodeStr :: "Conv2DInfo \<Rightarrow> int list \<Rightarrow> string \<Rightarrow> string" where
  "userCodeStr convInfo outputShape' getOutputCoordsStr =
     (let xShape = ''ivec4('' @ join (map showInt (inShape convInfo)) @ '')'' in
      ''\<newline>'' @
      ''      const ivec2 strides = ivec2('' @ showInt (strideHeight convInfo) @ '', '' @
        showInt (strideWidth convInfo) @ '');\<newline>'' @
      ''      const ivec2 pads = ivec2('' @ showInt (pad_top (padInfo convInfo)) @ '', '' @
        showInt (pad_left (padInfo convInfo)) @ '');\<newline>'' @
      ''      float initializationValue = 0.0;\<newline>'' @
      ''\<newline>'' @
      ''      float getValue(int batch, int xR, int xC, int d) {\<newline>'' @
      ''        if (xC < 0 || xC >= '' @ showInt (inWidth convInfo) @ '') {\<newline>'' @
      ''          return initializationValue;\<newline>'' @
      ''        }\<newline>'' @
      ''        return x[getFlatIndex(ivec4(batch, xR, xC, d), '' @ xShape @ '')];\<newline>'' @
      ''      }\<newline>'' @
      ''\<newline>'' @
      ''      '' @ getOutputCoordsStr @ ''\<newline>'' @
      ''\<newline>'' @
      ''      void main() {\<newline>'' @
      ''        ivec4 coords = getOutputCoords();\<newline>'' @
      ''        int batch = coords[0];\<newline>'' @
      ''        int d = coords[3];\<newline>'' @
      ''        uint index = getFlatIndex(coords, ivec4(\<newline>'' @
      ''          '' @ showNum (js_index outputShape' 0) @ '', \<newline>'' @
      ''          '' @ showNum (js_index outputShape' 1) @ '', \<newline>'' @
      ''          '' @ showNum (js_index outputShape' 2) @ '', \<newline>'' @
      ''          '' @ showNum (js_index outputShape' 3) @ ''));\<newline>'' @
      ''\<newline>'' @
      ''        ivec2 xRCCorner = coords.yz * strides - pads;\<newline>'' @
      ''        int xRCorner = xRCCorner.x;\<newline>'' @
      ''        int xCCorner = xRCCorner.y;\<newline>'' @
      ''\<newline>'' @
      ''        float minMaxValue = 0.0;\<newline>'' @
      ''\<newline>'' @
      ''        for(int wR=0; wR<'' @ showInt (effectiveFilterHeight convInfo) @ ''; wR += '' @
        showInt (dilationHeight convInfo) @ '') {\<newline>'' @
      ''          int xR = xRCorner + wR;\<newline>'' @
      ''\<newline>'' @
      ''          if (xR < 0 || xR >= '' @ showInt (inHeight convInfo) @ '') {\<newline>'' @
      ''            continue;\<newline>'' @
      ''          }\<newline>'' @
      ''\<newline>'' @
      ''          for(int wC=0; wC<'' @ showInt (effectiveFilterWidth convInfo) @ ''; wC += '' @
        showInt (dilationWidth convInfo) @ '') {\<newline>'' @
      ''            int xC = xCCorner + wC * '' @ showInt (dilationWidth convInfo) @ '';\<newline>'' @
      ''\<newline>'' @
      ''            float value = getValue(batch, xR, xC, d);\<newline>'' @
      ''\<newline>'' @
      ''            minMaxValue = max(value, minMaxValue);\<newline>'' @
      ''          }\<newline>'' @
      ''        }\<newline>'' @
      ''\<newline>'' @
      ''        setOutput(index, minMaxValue);\<newline>'' @
      ''      }\<newline>'' @
      ''    '')"

section \<open>The constructor\<close>

definition MaxPoolProgram :: "(nat \<Rightarrow> js_error + string) \<Rightarrow> Conv2DInfo \<Rightarrow> js_error + program" where
  "MaxPoolProgram getCoordsDataType convInfo =
     (let outputShape' = outShape convInfo in
      (case computeDispatch outputShape' init_tileSize of Inl e \<Rightarrow> Inl e | Inr dispatch' \<Rightarrow>
      (case generateGetOutputCoords getCoordsDataType outputShape' outputShape' of
         Inl e \<Rightarrow> Inl e
       | Inr getOutputCoordsStr \<Rightarrow>
           Inr \<lparr> outputShape = outputShape',
                 userCode = userCodeStr convInfo outputShape' getOutputCoordsStr,
                 dispatch = dispatch',
                 variableNames = init_variableNames,
                 uniforms = init_uniforms,
                 tileSize = init_tileSize \<rparr>)))"

section \<open>The emitted shader\<close>

text \<open>
  The functions of this section are the program that \<open>userCodeStr\<close> writes, read as
  GLSL: each \<^verbatim>\<open>${...}\<close> of the template is the value of the geometry that the
  generator prints there. Shader integers (\<^verbatim>\<open>int\<close>, \<^verbatim>\<open>uint\<close>) are modelled as
  \<^typ>\<open>int\<close>, without the 32-bit bound; the components of
  \<^verbatim>\<open>gl_GlobalInvocationID\<close> are naturals. The input buffer \<^verbatim>\<open>x\<close> is a function
  from indices to values, total because a shader read outside the buffer yields an
  unspecified value and does not stop the invocation. Float values are modelled as
  \<^typ>\<open>real\<close>.
\<close>

type_synonym ivec4 = "int \<times> int \<times> int \<times> int"

record shader_env =
  buf_x :: "int \<Rightarrow> real"
  u_inpShape :: "nat \<times> nat \<times> nat \<times> nat"
  u_outShape :: "nat \<times> nat \<times> nat \<times> nat"
  u_pad :: "nat \<times> nat"
  u_stride :: "nat \<times> nat"
  gl_GlobalInvocationID :: "nat \<times> nat \<times> nat"

text \<open>
  An invocation that writes nothing: \<open>IllFormed\<close> when the generated text is not a
  shader that compiles (a shape that does not print four entries into
  \<^verbatim>\<open>ivec4(...)\<close>, or a coordinate \<^verbatim>\<open>d<k>\<close> that is returned and was never declared),
  \<open>Diverges\<close> when a loop of \<^verbatim>\<open>main\<close> does not end.
\<close>

datatype shader_error = IllFormed | Diverges

text \<open>The constructor \<^verbatim>\<open>ivec4(a,b,c,d)\<close> applied to the printed entries of a shape;
  \<open>main\<close> checks that there are four.\<close>

fun ivec4 :: "int list \<Rightarrow> ivec4" where
  "ivec4 [a, b, c, d] = (a, b, c, d)"

text \<open>
  Modelled from the spec: \<^verbatim>\<open>getFlatIndex(coords, shape)\<close> of the shader preprocessor,
  which is not among the sources: the flat index of the coordinates under the row-major
  strides of the shape (4.3 (2), 6).
\<close>

fun getFlatIndex :: "ivec4 \<Rightarrow> ivec4 \<Rightarrow> int" where
  "getFlatIndex (c0, c1, c2, c3) (s0, s1, s2, s3) =
     c0 * (s1 * s2 * s3) + c1 * (s2 * s3) + c2 * s3 + c3"

definition initializationValue :: real where
  "initializationValue = 0"

definition getValue :: "Conv2DInfo \<Rightarrow> shader_env \<Rightarrow> int \<Rightarrow> int \<Rightarrow> int \<Rightarrow> int \<Rightarrow> real" where
  "getValue convInfo env batch xR xC d =
     (if xC < 0 \<or> xC \<ge> inWidth convInfo then initializationValue
      else buf_x env (getFlatIndex (batch, xR, xC, d) (ivec4 (inShape convInfo))))"

text \<open>The statements that \<open>strideStr\<close> emits for the strides of one group, run on the
  invocation-id component \<open>index\<close>: the values of the declared dimensions, in the order
  of the group.\<close>

fun decompose :: "int list \<Rightarrow> int \<Rightarrow> int list" where
  "decompose [] index = []"
| "decompose [s] index = (let d = index div s in [d, index - d * s])"
| "decompose (s # t # strides) index =
     (let d = index div s in d # decompose (t # strides) (index - d * s))"

text \<open>The declarations \<^verbatim>\<open>uint d<k> = ...\<close> that \<open>groupStr\<close> emits for one group, as
  pairs of a dimension and its value.\<close>

definition gatherGroup :: "int list \<Rightarrow> int list \<Rightarrow> int \<Rightarrow> (int \<times> int) list" where
  "gatherGroup outputShape' arr g =
     (if length arr = 1 then [(arr ! 0, g)]
      else zip arr (decompose (computeStrides (map (\<lambda>d. outputShape' ! nat d) arr)) g))"

definition gatherDimensions :: "int list \<Rightarrow> nat \<times> nat \<times> nat \<Rightarrow> (int \<times> int) list" where
  "gatherDimensions outputShape' gid =
     (case gid of (gx, gy, gz) \<Rightarrow>
        concat (map (\<lambda>i. gatherGroup outputShape' (dispatchArrangement ! i) ([int gx, int gy, int gz] ! i))
                 [0..<length dispatchArrangement]))"

text \<open>\<^verbatim>\<open>getOutputCoords()\<close>: the vector \<^verbatim>\<open>(d0, ..., d<rank-1>)\<close>; \<open>None\<close> when one
  of the dimensions was not declared.\<close>

definition getOutputCoords :: "int list \<Rightarrow> int list \<Rightarrow> nat \<times> nat \<times> nat \<Rightarrow> int list option" where
  "getOutputCoords outputShape' shape gid =
     (let ds = map_of (gatherDimensions outputShape' gid)
      in those (map (\<lambda>i. ds (int i)) [0..<length shape]))"

text \<open>The two window loops of \<^verbatim>\<open>main\<close>. A loop whose step is not positive does not
  end: the result \<open>None\<close>.\<close>

partial_function (option) colLoop ::
  "Conv2DInfo \<Rightarrow> shader_env \<Rightarrow> int \<Rightarrow> int \<Rightarrow> int \<Rightarrow> int \<Rightarrow> int \<Rightarrow> real \<Rightarrow> real option" where
  "colLoop convInfo env batch d xR xCCorner wC minMaxValue =
     (if wC < effectiveFilterWidth convInfo then
        (let xC = xCCorner + wC * dilationWidth convInfo;
             value = getValue convInfo env batch xR xC d
         in colLoop convInfo env batch d xR xCCorner (wC + dilationWidth convInfo)
              (max value minMaxValue))
      else Some minMaxValue)"

partial_function (option) rowLoop ::
  "Conv2DInfo \<Rightarrow> shader_env \<Rightarrow> int \<Rightarrow> int \<Rightarrow> int \<Rightarrow> int \<Rightarrow> int \<Rightarrow> real \<Rightarrow> real option" where
  "rowLoop convInfo env batch d xRCorner xCCorner wR minMaxValue =
     (if wR < effectiveFilterHeight convInfo then
        (let xR = xRCorner + wR in
         if xR < 0 \<or> xR \<ge> inHeight convInfo then
           rowLoop convInfo env batch d xRCorner xCCorner (wR + dilationHeight convInfo) minMaxValue
         else
           Option.bind (colLoop convInfo env batch d xR xCCorner 0 minMaxValue)
             (\<lambda>m. rowLoop convInfo env batch d xRCorner xCCorner (wR + dilationHeight convInfo) m))
      else Some minMaxValue)"

text \<open>
  Modelled from the spec: \<^verbatim>\<open>setOutput(index, value)\<close> of the shader preprocessor,
  which is not among the sources: it writes the value to the output buffer at the
  flat index (4.3 (7)). The write is the pair of the index and the value.
\<close>

definition setOutput :: "int \<Rightarrow> real \<Rightarrow> int \<times> real" where
  "setOutput index v = (index, v)"

declare setOutput_def [simp]

text \<open>
  \<^verbatim>\<open>main()\<close>. The call of \<^verbatim>\<open>setOutput\<close> is the one effect of an invocation, and
  the result of \<open>main\<close> is that write. The two shapes are printed into
  \<^verbatim>\<open>ivec4(...)\<close> constructors, so the text is a shader only when both have four
  entries.
\<close>

definition main :: "Conv2DInfo \<Rightarrow> shader_env \<Rightarrow> shader_error + (int \<times> real)" where
  "main convInfo env =
     (if length (inShape convInfo) = 4 \<and> length (outShape convInfo) = 4 then
        (case getOutputCoords (outShape convInfo) (outShape convInfo) (gl_GlobalInvocationID env) of
           Some [c0, c1, c2, c3] \<Rightarrow>
             (let batch = c0;
                  d = c3;
                  index = getFlatIndex (c0, c1, c2, c3) (ivec4 (outShape convInfo));
                  xRCorner = c1 * strideHeight convInfo - pad_top (padInfo convInfo);
                  xCCorner = c2 * strideWidth convInfo - pad_left (padInfo convInfo)
              in (case rowLoop convInfo env batch d xRCorner xCCorner 0 0 of
                    None \<Rightarrow> Inl Diverges
                  | Some minMaxValue \<Rightarrow> Inr (setOutput index minMaxValue)))
         | _ \<Rightarrow> Inl IllFormed)
      else Inl IllFormed)"

section \<open>Running the program\<close>

text \<open>
  Modelled from the spec: the dispatch loop of the host backend, which is not among the
  sources. The invocations are grouped into workgroups sized by \<open>tileSize\<close> (5), and
  \<open>dispatch\<close> counts the workgroups of each axis: the invocation ids of axis \<open>i\<close> are
  the naturals below \<open>dispatch[i] * tileSize[i]\<close>.
\<close>

definition invocationIds :: "program \<Rightarrow> (nat \<times> nat \<times> nat) list" where
  "invocationIds p =
     (case (dispatch p, tileSize p) of
        ((Num nx, Num ny, Num nz), (tx, ty, tz)) \<Rightarrow>
          List.product [0..<nat (nx * tx)]
            (List.product [0..<nat (ny * ty)] [0..<nat (nz * tz)])
      | _ \<Rightarrow> [])"

text \<open>The flat index and the value that each invocation of the grid passes to
  \<^verbatim>\<open>setOutput\<close>.\<close>

definition runProgram :: "Conv2DInfo \<Rightarrow> program \<Rightarrow> shader_env \<Rightarrow> (shader_error + (int \<times> real)) list" where
  "runProgram convInfo p env =
     map (\<lambda>gid. main convInfo (env\<lparr>gl_GlobalInvocationID := gid\<rparr>)) (invocationIds p)"

section \<open>Notions used in the statements\<close>

text \<open>The values that the counter of \<^verbatim>\<open>for (int w = w0; w < bound; w += step)\<close> takes
  when the step is positive.\<close>

function forIndices :: "int \<Rightarrow> int \<Rightarrow> int \<Rightarrow> int list" where
  "forIndices bound step w =
     (if w < bound \<and> 0 < step then w # forIndices bound step (w + step) else [])"
  by pat_completeness auto
termination
  by (relation "measure (\<lambda>(bound, step, w). nat (bound - w))") auto

declare forIndices.simps [simp del]

text \<open>The flat index of the coordinates of one dispatch group under the row-major strides
  of the group's shape \<open>dims\<close> (the stride of the last dimension is 1).\<close>

definition flattenGroup :: "int list \<Rightarrow> int list \<Rightarrow> int" where
  "flattenGroup dims coords = sum_list (map2 (\<lambda>c s. c * s) coords (computeStrides dims @ [1]))"

text \<open>A data-type helper for running the constructor on concrete geometries: it names the
  coordinate type of rank 4 \<^verbatim>\<open>ivec4\<close>, as the declaration
  \<^verbatim>\<open>ivec4 coords = getOutputCoords()\<close> of \<^verbatim>\<open>main\<close> expects.\<close>

definition ivecDataType :: "nat \<Rightarrow> js_error + string" where
  "ivecDataType rank = Inr (''ivec'' @ showNat rank)"

text \<open>An input buffer that holds the values \<open>xs\<close>.\<close>

definition bufferOf :: "real list \<Rightarrow> int \<Rightarrow> real" where
  "bufferOf xs i = (if 0 \<le> i \<and> i < int (length xs) then xs ! nat i else 0)"

definition envOf :: "real list \<Rightarrow> nat \<times> nat \<times> nat \<Rightarrow> shader_env" where
  "envOf xs gid =
     \<lparr> buf_x = bufferOf xs, u_inpShape = (0, 0, 0, 0), u_outShape = (0, 0, 0, 0),
       u_pad = (0, 0), u_stride = (0, 0), gl_GlobalInvocationID = gid \<rparr>"

text \<open>The safe integers of JavaScript (\<^verbatim>\<open>Number.isSafeInteger\<close>): the integers of
  magnitude below \<open>2^53\<close>. Each is a number, and a product of numbers that is a safe
  integer is computed exactly.\<close>

definition isSafeInteger :: "int \<Rightarrow> bool" where
  "isSafeInteger n = (\<bar>n\<bar> < 2 ^ 53)"

text \<open>The values that the variable \<^verbatim>\<open>product\<close> of \<open>arrayProduct\<close> would take, from \<open>k\<close>
  on, if the multiplications were exact.\<close>

fun runningProducts :: "int \<Rightarrow> int list \<Rightarrow> int list" where
  "runningProducts k [] = [k]"
| "runningProducts k (a # ns) = k # runningProducts (k * a) ns"

text \<open>A geometry all of whose numbers are safe integers.\<close>

definition safeGeometry :: "Conv2DInfo \<Rightarrow> bool" where
  "safeGeometry convInfo =
     list_all isSafeInteger
       ([strideHeight convInfo, strideWidth convInfo, dilationHeight convInfo,
         dilationWidth convInfo, pad_top (padInfo convInfo), pad_left (padInfo convInfo),
         effectiveFilterHeight convInfo, effectiveFilterWidth convInfo,
         inHeight convInfo, inWidth convInfo] @ inShape convInfo @ outShape convInfo)"

text \<open>The first scenario of the spec (8): a 4 x 4 input pooled by 2 x 2 windows of
  stride 2.\<close>

definition scenarioGeometry :: Conv2DInfo where
  "scenarioGeometry =
     \<lparr> strideHeight = 2, strideWidth = 2, dilationHeight = 1, dilationWidth = 1,
       padInfo = \<lparr> pad_top = 0, pad_left = 0 \<rparr>,
       effectiveFilterHeight = 2, effectiveFilterWidth = 2,
       inHeight = 4, inWidth = 4, inShape = [1, 4, 4, 1], outShape = [1, 2, 2, 1] \<rparr>"

text \<open>The effect of one iteration of the row loop on the running maximum, when the column
  loop ends: a row outside the input leaves it unchanged, another row folds the values that
  \<open>getValue\<close> returns at the columns \<open>xCCorner + wC * dilationWidth\<close>.\<close>

definition rowStep :: "Conv2DInfo \<Rightarrow> shader_env \<Rightarrow> int \<Rightarrow> int \<Rightarrow> int \<Rightarrow> int \<Rightarrow> real \<Rightarrow> int \<Rightarrow> real" where
  "rowStep convInfo env batch d xRCorner xCCorner m wR =
     (if xRCorner + wR < 0 \<or> xRCorner + wR \<ge> inHeight convInfo then m
      else foldl (\<lambda>m wC. max (getValue convInfo env batch (xRCorner + wR)
                                (xCCorner + wC * dilationWidth convInfo) d) m) m
             (forIndices (effectiveFilterWidth convInfo) (dilationWidth convInfo) 0))"

text \<open>The scenario with 94906267 images of 94906267 channels: the product of the two
  sizes, 9007199515875289, is above \<open>2^53\<close> and odd, and so not a number.\<close>

definition largeGeometry :: Conv2DInfo where
  "largeGeometry =
     \<lparr> strideHeight = 2, strideWidth = 2, dilationHeight = 1, dilationWidth = 1,
       padInfo = \<lparr> pad_top = 0, pad_left = 0 \<rparr>,
       effectiveFilterHeight = 2, effectiveFilterWidth = 2,
       inHeight = 4, inWidth = 4, inShape = [94906267, 4, 4, 94906267],
       outShape = [94906267, 2, 2, 94906267] \<rparr>"

text \<open>A geometry with an odd output height and width: a 7 x 7 input pooled by 3 x 3 windows
  of stride 2.\<close>

definition oddGeometry :: Conv2DInfo where
  "oddGeometry =
     \<lparr> strideHeight = 2, strideWidth = 2, dilationHeight = 1, dilationWidth = 1,
       padInfo = \<lparr> pad_top = 0, pad_left = 0 \<rparr>,
       effectiveFilterHeight = 3, effectiveFilterWidth = 3,
       inHeight = 7, inWidth = 7, inShape = [1, 7, 7, 1], outShape = [1, 3, 3, 1] \<rparr>"

text \<open>A geometry with a dilated window: a 1 x 5 input pooled by a 1 x 2 filter of dilation 2
  (effective width 3) and stride 1.\<close>

definition dilatedGeometry :: Conv2DInfo where
  "dilatedGeometry =
     \<lparr> strideHeight = 1, strideWidth = 1, dilationHeight = 1, dilationWidth = 2,
       padInfo = \<lparr> pad_top = 0, pad_left = 0 \<rparr>,
       effectiveFilterHeight = 1, effectiveFilterWidth = 3,
       inHeight = 1, inWidth = 5, inShape = [1, 1, 5, 1], outShape = [1, 1, 3, 1] \<rparr>"

text \<open>A geometry whose first output row has its window above the input: the scenario
  with a padding of 2.\<close>

definition paddedGeometry :: Conv2DInfo where
  "paddedGeometry =
     \<lparr> strideHeight = 2, strideWidth = 2, dilationHeight = 1, dilationWidth = 1,
       padInfo = \<lparr> pad_top = 2, pad_left = 2 \<rparr>,
       effectiveFilterHeight = 2, effectiveFilterWidth = 2,
       inHeight = 4, inWidth = 4, inShape = [1, 4, 4, 1], outShape = [1, 4, 4, 1] \<rparr>"

text \<open>
  The identifiers of a shader text: the maximal runs of letters, digits and underscores
  (a number is such a run as well). A text refers to a uniform when the name of the
  uniform is one of its identifiers.
\<close>

definition isIdentChar :: "char \<Rightarrow> bool" where
  "isIdentChar c = (c \<in> set ''abcdefghijklmnopqrstuvwxyzABCDEFGHIJKLMNOPQRSTUVWXYZ0123456789_'')"

fun splitIdents :: "string \<Rightarrow> string \<Rightarrow> string list" where
  "splitIdents cur [] = [cur]"
| "splitIdents cur (c # cs) =
     (if isIdentChar c then splitIdents (cur @ [c]) cs else cur # splitIdents [] cs)"

definition identifiers :: "string \<Rightarrow> string list" where
  "identifiers s = filter (\<lambda>w. w \<noteq> []) (splitIdents [] s)"

text \<open>The names of the two uniforms of claim C10, and the texts none of whose identifiers
  is one of them: \<open>safeFrom cur s\<close> when the identifier \<open>cur\<close> has been read and \<open>s\<close>
  follows, \<open>safeTail s\<close> for the identifiers of \<open>s\<close> after its first. An identifier with
  a digit or one of the letters \<open>u\<close>, \<open>f\<close>, \<open>N\<close> is \<open>marked\<close>: it is neither name.\<close>

definition padStride :: "string list" where
  "padStride = [''pad'', ''stride'']"

definition safeFrom :: "string \<Rightarrow> string \<Rightarrow> bool" where
  "safeFrom cur s = (set (splitIdents cur s) \<inter> set padStride = {})"

definition safeTail :: "string \<Rightarrow> bool" where
  "safeTail s = (set (tl (splitIdents [] s)) \<inter> set padStride = {})"

definition marked :: "string \<Rightarrow> bool" where
  "marked w = (\<exists>c \<in> set w. c \<in> set ''0123456789ufN'')"

section \<open>The constructor: dispatch sizes, errors and metadata\<close>

lemma exponentOf_small: "m < 2 ^ 53 \<Longrightarrow> exponentOf m = 0"
  by (subst exponentOf.simps) simp

lemma exponentOf_large: "\<not> m < 2 ^ 53 \<Longrightarrow> exponentOf m = Suc (exponentOf (m div 2))"
  by (subst exponentOf.simps) simp

lemma roundToEven_small: "m < 2 ^ 53 \<Longrightarrow> roundToEven m = m"
  by (simp add: roundToEven_def exponentOf_small)

lemma js_number_safe: "isSafeInteger n \<Longrightarrow> js_number n = Num n"
proof -
  assume "isSafeInteger n"
  then have m: "nat \<bar>n\<bar> < 2 ^ 53"
    unfolding isSafeInteger_def by (simp add: nat_less_iff)
  have "(2::nat) ^ 53 \<le> 2 ^ 1024"
    by (rule power_increasing) simp_all
  then have "\<not> (2::nat) ^ 1024 \<le> nat \<bar>n\<bar>"
    using m by linarith
  moreover have "sgn n * int (nat \<bar>n\<bar>) = n"
    by (simp add: mult_sgn_abs)
  ultimately show ?thesis
    by (simp add: js_number_def roundToEven_small[OF m] del: power_increasing_iff)
qed

lemma js_number_large_product: "js_number (94906267 * 94906267) = Num 9007199515875288"
proof -
  have e: "exponentOf 9007199515875289 = 1"
    by (simp add: exponentOf_large exponentOf_small)
  have r: "roundToEven 9007199515875289 = 9007199515875288"
    by (simp add: roundToEven_def e)
  show ?thesis
    by (simp add: js_number_def r)
qed

lemma isSafeInteger_small:
  "isSafeInteger 0" "isSafeInteger 1" "isSafeInteger 2" "isSafeInteger 3" "isSafeInteger 4"
  "isSafeInteger 5" "isSafeInteger 7" "isSafeInteger 94906267"
  by (simp_all add: isSafeInteger_def)

lemma isSafeInteger_factor:
  assumes "0 < a" and "0 < b" and "isSafeInteger (a * b)"
  shows "isSafeInteger a"
proof -
  have "a * 1 \<le> a * b"
    using assms(1,2) by (intro mult_left_mono) simp_all
  then have "\<bar>a\<bar> \<le> \<bar>a * b\<bar>"
    using assms(1) by simp
  then show ?thesis
    using assms(3) unfolding isSafeInteger_def by linarith
qed

lemma groupProduct_rank4:
  "isSafeInteger s1 \<Longrightarrow> groupProduct [s0, s1, s2, s3] 0 = Inr (Num s1)"
  "isSafeInteger s2 \<Longrightarrow> groupProduct [s0, s1, s2, s3] (Suc 0) = Inr (Num s2)"
  "isSafeInteger s0 \<Longrightarrow> isSafeInteger (s0 * s3) \<Longrightarrow>
     groupProduct [s0, s1, s2, s3] 2 = Inr (Num (s0 * s3))"
  by (simp_all add: groupProduct_def arrayProduct_def dispatchArrangement_def js_index_def
      js_number_safe)

lemma groupProduct_succeeds:
  "i < 3 \<Longrightarrow> \<exists>v. groupProduct shape i = Inr v"
  by (auto simp add: groupProduct_def arrayProduct_def dispatchArrangement_def less_Suc_eq
      numeral_3_eq_3)

lemma computeDispatch_succeeds:
  "\<exists>dispatch'. computeDispatch shape init_tileSize = Inr dispatch'"
proof -
  obtain p0 p1 p2 where "groupProduct shape 0 = Inr p0" "groupProduct shape 1 = Inr p1"
    "groupProduct shape 2 = Inr p2"
    using groupProduct_succeeds[of 0 shape] groupProduct_succeeds[of 1 shape]
      groupProduct_succeeds[of 2 shape]
    by auto
  then show ?thesis by (simp add: computeDispatch_def init_tileSize_def)
qed

lemma computeDispatch_rank4:
  assumes "isSafeInteger s0" and "isSafeInteger s1" and "isSafeInteger s2"
    and "isSafeInteger (s0 * s3)"
  shows "computeDispatch [s0, s1, s2, s3] init_tileSize =
     Inr (Num \<lceil>real_of_int s1 / 2\<rceil>, Num \<lceil>real_of_int s2 / 2\<rceil>, Num (s0 * s3))"
  using assms
  by (simp add: computeDispatch_def init_tileSize_def groupProduct_rank4 flip: of_int_mult)

lemma MaxPoolProgram_fields:
  assumes "MaxPoolProgram g convInfo = Inr p"
  shows "outputShape p = outShape convInfo"
    and "variableNames p = [''x'']"
    and "uniforms p = ''uvec4 inpShape, outShape; uvec2 pad, stride;''"
    and "tileSize p = (2, 2, 1)"
    and "computeDispatch (outShape convInfo) init_tileSize = Inr (dispatch p)"
  using assms
  by (auto simp add: MaxPoolProgram_def Let_def init_variableNames_def init_uniforms_def
      init_tileSize_def split: sum.splits)

lemma MaxPoolProgram_succeeds:
  assumes "g (length (outShape convInfo)) = Inr dtype"
  shows "\<exists>p. MaxPoolProgram g convInfo = Inr p"
  using assms computeDispatch_succeeds[of "outShape convInfo"]
  by (auto simp add: MaxPoolProgram_def generateGetOutputCoords_def Let_def split: sum.splits)

lemma ceil_half_cover: "s \<le> \<lceil>real_of_int s / 2\<rceil> * 2"
  by linarith

lemma ivecDataType_4: "ivecDataType 4 = Inr ''ivec4''"
  by (simp add: ivecDataType_def showNat.simps digitChar_def)

lemma ivecDataType_3: "ivecDataType 3 = Inr ''ivec3''"
  by (simp add: ivecDataType_def showNat.simps digitChar_def)

lemma ivecDataType_length:
  "length shape = 4 \<Longrightarrow> ivecDataType (length shape) = Inr ''ivec4''"
  "length shape = 3 \<Longrightarrow> ivecDataType (length shape) = Inr ''ivec3''"
  by (simp_all add: ivecDataType_4 ivecDataType_3)

text \<open>
  Claim C2 (dispatch sizes and coverage), for the shapes whose products JavaScript
  computes exactly. For an output shape \<open>[s0, s1, s2, s3]\<close> of four positive integers
  whose height \<open>s1\<close>, width \<open>s2\<close> and product \<open>s0 * s3\<close> of batch and channel sizes are safe
  integers (below \<open>2^53\<close>), the constructor returns a program whose dispatch is
  \<open>(ceil (s1 / 2), ceil (s2 / 2), ceil (s0 * s3 / 1))\<close>: entry \<open>i\<close> is the product of the
  dimensions of group \<open>i\<close> of \<open>[[1], [2], [0, 3]]\<close> divided by entry \<open>i\<close> of the tile
  size \<open>(2, 2, 1)\<close>, rounded up. The product of the three dispatch sizes and the three
  tile sizes is at least the number \<open>s0 * s1 * s2 * s3\<close> of output elements. (The
  constructor is run with a data-type helper that returns for rank 4.) The claim for
  every shape of positive integers is refuted by the shape \<open>[94906267, 2, 2, 94906267]\<close>:
  the product of its batch and channel sizes is rounded down to 9007199515875288, and
  the dispatch falls short of the output by four elements.
\<close>

theorem dispatch_covers_output:
  assumes "outShape convInfo = [s0, s1, s2, s3]"
    and "0 < s0" and "0 < s1" and "0 < s2" and "0 < s3"
    and "isSafeInteger s1" and "isSafeInteger s2" and "isSafeInteger (s0 * s3)"
    and "getCoordsDataType 4 = Inr dtype"
  shows "\<exists>p d0 d1 d2. MaxPoolProgram getCoordsDataType convInfo = Inr p
           \<and> dispatch p = (Num d0, Num d1, Num d2) \<and> tileSize p = (2, 2, 1)
           \<and> d0 = \<lceil>real_of_int s1 / 2\<rceil>
           \<and> d1 = \<lceil>real_of_int s2 / 2\<rceil>
           \<and> d2 = \<lceil>real_of_int (s0 * s3) / 1\<rceil>
           \<and> d0 * d1 * d2 * 2 * 2 * 1 \<ge> s0 * s1 * s2 * s3"
proof -
  have "length (outShape convInfo) = 4"
    using assms(1) by simp
  then have "getCoordsDataType (length (outShape convInfo)) = Inr dtype"
    using assms(9) by simp
  then obtain p where p: "MaxPoolProgram getCoordsDataType convInfo = Inr p"
    using MaxPoolProgram_succeeds by blast
  let ?d0 = "\<lceil>real_of_int s1 / 2\<rceil>" and ?d1 = "\<lceil>real_of_int s2 / 2\<rceil>"
  have safe0: "isSafeInteger s0"
    using assms(2,5,8) by (rule isSafeInteger_factor)
  have disp: "dispatch p = (Num ?d0, Num ?d1, Num (s0 * s3))"
    using MaxPoolProgram_fields(5)[OF p] assms(1)
    by (simp add: computeDispatch_rank4[OF safe0 assms(6,7,8)])
  have a: "s1 \<le> ?d0 * 2" and b: "s2 \<le> ?d1 * 2"
    by (rule ceil_half_cover)+
  have "s1 * s2 \<le> (?d0 * 2) * (?d1 * 2)"
    using a b assms(3,4) by (intro mult_mono) auto
  then have "(s1 * s2) * (s0 * s3) \<le> ((?d0 * 2) * (?d1 * 2)) * (s0 * s3)"
    using assms(2,5) by (intro mult_right_mono) auto
  then have cover: "s0 * s1 * s2 * s3 \<le> ?d0 * ?d1 * (s0 * s3) * 2 * 2 * 1"
    by (simp add: mult_ac)
  have d2: "s0 * s3 = \<lceil>real_of_int (s0 * s3) / 1\<rceil>"
    by (simp only: div_by_1 ceiling_of_int)
  show ?thesis
  proof (intro exI conjI)
    show "MaxPoolProgram getCoordsDataType convInfo = Inr p" by (rule p)
    show "dispatch p = (Num ?d0, Num ?d1, Num (s0 * s3))" by (rule disp)
    show "tileSize p = (2, 2, 1)" by (rule MaxPoolProgram_fields(4)[OF p])
    show "?d0 = \<lceil>real_of_int s1 / 2\<rceil>" and "?d1 = \<lceil>real_of_int s2 / 2\<rceil>" by (rule refl)+
    show "s0 * s3 = \<lceil>real_of_int (s0 * s3) / 1\<rceil>" by (rule d2)
    show "s0 * s1 * s2 * s3 \<le> ?d0 * ?d1 * (s0 * s3) * 2 * 2 * 1" by (rule cover)
  qed
qed

theorem dispatch_covers_output_witness:
  "\<exists>p. MaxPoolProgram ivecDataType oddGeometry = Inr p
       \<and> dispatch p = (Num 2, Num 2, Num 1) \<and> tileSize p = (2, 2, 1)
       \<and> (2::int) * 2 * 1 * 2 * 2 * 1 \<ge> 1 * 3 * 3 * 1"
proof -
  have shape: "outShape oddGeometry = [1, 3, 3, 1]"
    by (simp add: oddGeometry_def)
  show ?thesis
    using dispatch_covers_output[of oddGeometry 1 3 3 1 ivecDataType "''ivec4''"] shape
      ivecDataType_4
    by (simp add: isSafeInteger_def)
qed

theorem dispatch_falls_short_counterexample:
  "map_sum id dispatch (MaxPoolProgram ivecDataType largeGeometry)
     = Inr (Num 1, Num 1, Num 9007199515875288)
   \<and> outShape largeGeometry = [94906267, 2, 2, 94906267]
   \<and> (9007199515875288::int) < \<lceil>real_of_int (94906267 * 94906267) / 1\<rceil>
   \<and> (1::int) * 1 * 9007199515875288 * 2 * 2 * 1 < 94906267 * 2 * 2 * 94906267"
proof -
  have "ivecDataType (length (outShape largeGeometry)) = Inr ''ivec4''"
    by (rule ivecDataType_length) (simp add: largeGeometry_def)
  then obtain p where p: "MaxPoolProgram ivecDataType largeGeometry = Inr p"
    using MaxPoolProgram_succeeds by blast
  have "computeDispatch (outShape largeGeometry) init_tileSize
      = Inr (Num 1, Num 1, Num 9007199515875288)"
    using js_number_large_product
    by (simp add: largeGeometry_def computeDispatch_def init_tileSize_def groupProduct_def
        arrayProduct_def dispatchArrangement_def js_index_def js_number_safe isSafeInteger_def)
  then have "dispatch p = (Num 1, Num 1, Num 9007199515875288)"
    using MaxPoolProgram_fields(5)[OF p] by simp
  moreover have "outShape largeGeometry = [94906267, 2, 2, 94906267]"
    by (simp add: largeGeometry_def)
  ultimately show ?thesis
    using p by simp
qed

text \<open>
  Claim C7 (rank validation), as the code has it. The constructor raises an error exactly
  when the data-type helper raises one for the rank of the output shape, the helper's
  error, and returns a program exactly when the helper returns: no group of
  \<open>dispatchArrangement\<close> is empty, and the computation of the dispatch sizes never fails.
  The input shape plays no part in the outcome. The claim
  that a rank other than 4 makes the construction fail is refuted, with a helper that
  names the coordinate types of the ranks 3 and 4, by a geometry with an input shape of
  rank 3, and by one with an output shape of rank 3, whose third dispatch size is
  \<open>NaN\<close>: both yield a program.
\<close>

theorem construction_fails_only_in_helper:
  "(MaxPoolProgram getCoordsDataType convInfo = Inl e)
     = (getCoordsDataType (length (outShape convInfo)) = Inl e)
   \<and> (\<exists>p. MaxPoolProgram getCoordsDataType convInfo = Inr p)
     = (\<exists>dtype. getCoordsDataType (length (outShape convInfo)) = Inr dtype)
   \<and> (MaxPoolProgram getCoordsDataType (convInfo\<lparr>inShape := shape\<rparr>) = Inl e)
     = (MaxPoolProgram getCoordsDataType convInfo = Inl e)
   \<and> [] \<notin> set dispatchArrangement
   \<and> (\<exists>dispatch'. computeDispatch (outShape convInfo) init_tileSize = Inr dispatch')"
  using computeDispatch_succeeds[of "outShape convInfo"]
  by (auto simp add: MaxPoolProgram_def generateGetOutputCoords_def Let_def
      dispatchArrangement_def split: sum.splits)

theorem rank_not_validated_counterexample:
  "map_sum id dispatch (MaxPoolProgram ivecDataType (scenarioGeometry\<lparr>inShape := [1, 4, 4]\<rparr>))
     = Inr (Num 1, Num 1, Num 1)
   \<and> map_sum id dispatch (MaxPoolProgram ivecDataType (scenarioGeometry\<lparr>outShape := [1, 2, 2]\<rparr>))
     = Inr (Num 1, Num 1, NaN)"
proof -
  let ?a = "scenarioGeometry\<lparr>inShape := [1, 4, 4]\<rparr>"
  let ?b = "scenarioGeometry\<lparr>outShape := [1, 2, 2]\<rparr>"
  have "ivecDataType (length (outShape ?a)) = Inr ''ivec4''"
    by (rule ivecDataType_length) (simp add: scenarioGeometry_def)
  then obtain p where p: "MaxPoolProgram ivecDataType ?a = Inr p"
    using MaxPoolProgram_succeeds by blast
  have "computeDispatch (outShape ?a) init_tileSize = Inr (Num 1, Num 1, Num 1)"
    by (simp add: scenarioGeometry_def computeDispatch_rank4 isSafeInteger_def)
  then have dp: "dispatch p = (Num 1, Num 1, Num 1)"
    using MaxPoolProgram_fields(5)[OF p] by simp
  have "ivecDataType (length (outShape ?b)) = Inr ''ivec3''"
    by (rule ivecDataType_length) (simp add: scenarioGeometry_def)
  then obtain q where q: "MaxPoolProgram ivecDataType ?b = Inr q"
    using MaxPoolProgram_succeeds by blast
  have "computeDispatch (outShape ?b) init_tileSize = Inr (Num 1, Num 1, NaN)"
    by (simp add: scenarioGeometry_def computeDispatch_def init_tileSize_def groupProduct_def
        arrayProduct_def dispatchArrangement_def js_index_def js_number_safe isSafeInteger_def)
  then have dq: "dispatch q = (Num 1, Num 1, NaN)"
    using MaxPoolProgram_fields(5)[OF q] by simp
  show ?thesis
    by (simp add: p q dp dq)
qed

lemma foldl_times_safe:
  "list_all isSafeInteger (runningProducts k ms) \<Longrightarrow>
     foldl (\<lambda>product a. product * a) (Num k) (map Num ms) = Num (k * prod_list ms)"
proof (induction ms arbitrary: k)
  case Nil
  then show ?case by simp
next
  case (Cons a ms)
  have "isSafeInteger (k * a)"
    using Cons.prems by (cases ms) simp_all
  then have "Num k * Num a = Num (k * a)"
    by (simp add: js_number_safe)
  then show ?case
    using Cons.IH[of "k * a"] Cons.prems by (simp add: mult.assoc)
qed

text \<open>
  Claim C8 (rejection of the empty product), with the product as JavaScript computes it.
  \<open>arrayProduct\<close> raises the error \<^verbatim>\<open>Cannot find product of empty array.\<close> on the empty
  array, and on every other array returns the product accumulated from 1 over the
  elements from left to right, each multiplication rounded as JavaScript rounds: a value
  in any case, and the product of the numbers \<open>ns\<close> when every value of the accumulator
  is a safe integer. No group of \<open>dispatchArrangement\<close> is empty, so the computation of the
  dispatch sizes succeeds for every shape: the error is unreachable in the constructor,
  which either returns a whole program or raises the error of the data-type helper and
  returns nothing. The claim that the product of the elements is returned in every case
  is refuted by the array \<open>[94906267, 94906267]\<close>, whose product 9007199515875289 is
  returned as 9007199515875288.
\<close>

theorem empty_product_rejected:
  "arrayProduct [] = Inl (Error ''Cannot find product of empty array.'')
   \<and> (arr \<noteq> [] \<longrightarrow> arrayProduct arr = Inr (foldl (\<lambda>product a. product * a) (Num 1) arr))
   \<and> (ns \<noteq> [] \<and> list_all isSafeInteger (runningProducts 1 ns)
        \<longrightarrow> arrayProduct (map Num ns) = Inr (Num (prod_list ns)))
   \<and> [] \<notin> set dispatchArrangement
   \<and> (\<exists>dispatch'. computeDispatch shape init_tileSize = Inr dispatch')
   \<and> ((\<exists>p. MaxPoolProgram getCoordsDataType convInfo = Inr p)
        \<or> (\<exists>e. MaxPoolProgram getCoordsDataType convInfo = Inl e
               \<and> getCoordsDataType (length (outShape convInfo)) = Inl e))"
proof -
  have prod: "ns \<noteq> [] \<and> list_all isSafeInteger (runningProducts 1 ns)
        \<longrightarrow> arrayProduct (map Num ns) = Inr (Num (prod_list ns))"
    using foldl_times_safe[of 1 ns] by (simp add: arrayProduct_def)
  have build: "(\<exists>p. MaxPoolProgram getCoordsDataType convInfo = Inr p)
        \<or> (\<exists>e. MaxPoolProgram getCoordsDataType convInfo = Inl e
               \<and> getCoordsDataType (length (outShape convInfo)) = Inl e)"
    using computeDispatch_succeeds[of "outShape convInfo"]
    by (auto simp add: MaxPoolProgram_def generateGetOutputCoords_def Let_def split: sum.splits)
  show ?thesis
    using prod build computeDispatch_succeeds[of shape]
    by (simp add: arrayProduct_def dispatchArrangement_def)
qed

theorem empty_product_rejected_witness:
  "arrayProduct [] = Inl (Error ''Cannot find product of empty array.'')
   \<and> arrayProduct [Num 2, Undefined] = Inr NaN
   \<and> arrayProduct (map Num [2, 5]) = Inr (Num 10)
   \<and> (\<exists>p. MaxPoolProgram ivecDataType scenarioGeometry = Inr p)"
  using empty_product_rejected[of "[Num 2, Undefined]" "[2, 5]" "[1, 2, 2, 1]" ivecDataType scenarioGeometry]
  by (simp add: ivecDataType_def isSafeInteger_def js_number_safe)

theorem product_rounds_counterexample:
  "arrayProduct (map Num [94906267, 94906267]) = Inr (Num 9007199515875288)
   \<and> prod_list [94906267, 94906267] = (9007199515875289::int)"
  using js_number_large_product
  by (simp add: arrayProduct_def js_number_safe isSafeInteger_def)

text \<open>
  Claim C9 (fixed metadata). For every geometry for which the data-type helper returns,
  the constructor returns a program whose list of input buffers is \<open>[''x'']\<close>, whose tile
  size is \<open>(2, 2, 1)\<close>, whose uniform declaration is the fixed string of two
  \<^verbatim>\<open>uvec4\<close> shapes and the two \<^verbatim>\<open>uvec2\<close> vectors \<^verbatim>\<open>pad\<close> and \<^verbatim>\<open>stride\<close>,
  and whose output shape is the output shape of the geometry, unchanged.
\<close>

theorem fixed_program_metadata:
  assumes "getCoordsDataType (length (outShape convInfo)) = Inr dtype"
  shows "\<exists>p. MaxPoolProgram getCoordsDataType convInfo = Inr p
           \<and> variableNames p = [''x'']
           \<and> tileSize p = (2, 2, 1)
           \<and> uniforms p = ''uvec4 inpShape, outShape; uvec2 pad, stride;''
           \<and> outputShape p = outShape convInfo"
proof -
  obtain p where p: "MaxPoolProgram getCoordsDataType convInfo = Inr p"
    using MaxPoolProgram_succeeds[of getCoordsDataType convInfo dtype] assms by blast
  show ?thesis
    using p MaxPoolProgram_fields(1-4)[OF p] by simp
qed

theorem fixed_program_metadata_witness:
  "\<exists>p. MaxPoolProgram ivecDataType scenarioGeometry = Inr p
       \<and> variableNames p = [''x'']
       \<and> tileSize p = (2, 2, 1)
       \<and> uniforms p = ''uvec4 inpShape, outShape; uvec2 pad, stride;''
       \<and> outputShape p = [1, 2, 2, 1]"
proof -
  have "ivecDataType (length (outShape scenarioGeometry)) = Inr ''ivec4''"
    by (rule ivecDataType_length) (simp add: scenarioGeometry_def)
  then show ?thesis
    using fixed_program_metadata[of ivecDataType scenarioGeometry "''ivec4''"]
    by (simp add: scenarioGeometry_def)
qed

section \<open>The emitted shader: coordinates and loops\<close>

lemma gatherDimensions_rank4:
  "gatherDimensions [s0, s1, s2, s3] (gx, gy, gz) =
     [(1, int gx), (2, int gy), (0, int gz div s3), (3, int gz - int gz div s3 * s3)]"
  by (simp add: gatherDimensions_def gatherGroup_def dispatchArrangement_def Let_def
      upt_rec[of 0] numeral_3_eq_3)

lemma getOutputCoords_rank4:
  "getOutputCoords [s0, s1, s2, s3] [t0, t1, t2, t3] (gx, gy, gz) =
     Some [int gz div s3, int gx, int gy, int gz - int gz div s3 * s3]"
  by (simp add: getOutputCoords_def gatherDimensions_rank4 Let_def
      upt_rec[of _ "Suc (Suc (Suc (Suc 0)))"])

lemma forIndices_step:
  "w < bound \<Longrightarrow> 0 < step \<Longrightarrow> forIndices bound step w = w # forIndices bound step (w + step)"
  by (subst forIndices.simps) simp

lemma forIndices_done:
  "\<not> w < bound \<Longrightarrow> forIndices bound step w = []"
  by (subst forIndices.simps) simp

lemma colLoop_fold:
  assumes "0 < dilationWidth convInfo"
  shows "colLoop convInfo env batch d xR xCCorner wC m =
     Some (foldl (\<lambda>m w. max (getValue convInfo env batch xR (xCCorner + w * dilationWidth convInfo) d) m) m
       (forIndices (effectiveFilterWidth convInfo) (dilationWidth convInfo) wC))"
  using assms
proof (induction "effectiveFilterWidth convInfo" "dilationWidth convInfo" wC arbitrary: m
    rule: forIndices.induct)
  case (1 w)
  show ?case
  proof (cases "w < effectiveFilterWidth convInfo")
    case True
    note IH = 1(1)[OF conjI[OF True 1(2)] 1(2)]
    show ?thesis
      by (subst colLoop.simps) (simp add: True Let_def IH forIndices_step[OF True 1(2)])
  next
    case False
    then show ?thesis
      by (subst colLoop.simps) (simp add: forIndices_done)
  qed
qed

lemma rowLoop_done:
  "\<not> wR < effectiveFilterHeight convInfo \<Longrightarrow>
     rowLoop convInfo env batch d xRCorner xCCorner wR m = Some m"
  by (subst rowLoop.simps) simp

lemma rowLoop_skip:
  assumes "wR < effectiveFilterHeight convInfo"
    and "xRCorner + wR < 0 \<or> xRCorner + wR \<ge> inHeight convInfo"
  shows "rowLoop convInfo env batch d xRCorner xCCorner wR m =
         rowLoop convInfo env batch d xRCorner xCCorner (wR + dilationHeight convInfo) m"
  apply (subst rowLoop.simps)
  using assms apply (simp add: Let_def)
  done

lemma rowLoop_visit:
  assumes "wR < effectiveFilterHeight convInfo"
    and "\<not> (xRCorner + wR < 0 \<or> xRCorner + wR \<ge> inHeight convInfo)"
  shows "rowLoop convInfo env batch d xRCorner xCCorner wR m =
         Option.bind (colLoop convInfo env batch d (xRCorner + wR) xCCorner 0 m)
           (rowLoop convInfo env batch d xRCorner xCCorner (wR + dilationHeight convInfo))"
  apply (subst rowLoop.simps)
  using assms apply (simp add: Let_def)
  done

lemma rowLoop_fold:
  assumes "0 < dilationHeight convInfo" and "0 < dilationWidth convInfo"
  shows "rowLoop convInfo env batch d xRCorner xCCorner wR m =
     Some (foldl (rowStep convInfo env batch d xRCorner xCCorner) m
       (forIndices (effectiveFilterHeight convInfo) (dilationHeight convInfo) wR))"
  using assms
proof (induction "effectiveFilterHeight convInfo" "dilationHeight convInfo" wR arbitrary: m
    rule: forIndices.induct)
  case (1 w)
  show ?case
  proof (cases "w < effectiveFilterHeight convInfo")
    case True
    note IH = 1(1)[OF conjI[OF True 1(2)] 1(2) 1(3)]
    note unf = forIndices_step[OF True 1(2)]
    show ?thesis
    proof (cases "xRCorner + w < 0 \<or> xRCorner + w \<ge> inHeight convInfo")
      case skip: True
      show ?thesis
        unfolding rowLoop_skip[OF True skip] IH unf
        using skip by (simp add: rowStep_def)
    next
      case visit: False
      show ?thesis
        unfolding rowLoop_visit[OF True visit] colLoop_fold[OF 1(3)] unf
        using visit by (simp add: IH rowStep_def)
    qed
  next
    case False
    then show ?thesis
      by (simp add: rowLoop_done forIndices_done)
  qed
qed

lemma rowLoop_all_skipped:
  assumes "0 < dilationHeight convInfo"
    and "\<forall>w \<in> set (forIndices (effectiveFilterHeight convInfo) (dilationHeight convInfo) wR).
           xRCorner + w < 0 \<or> xRCorner + w \<ge> inHeight convInfo"
  shows "rowLoop convInfo env batch d xRCorner xCCorner wR m = Some m"
  using assms
proof (induction "effectiveFilterHeight convInfo" "dilationHeight convInfo" wR
    rule: forIndices.induct)
  case (1 w)
  show ?case
  proof (cases "w < effectiveFilterHeight convInfo")
    case True
    note unf = forIndices_step[OF True 1(2)]
    have skip: "xRCorner + w < 0 \<or> xRCorner + w \<ge> inHeight convInfo"
      using 1(3) unfolding unf by simp
    have rest: "\<forall>w \<in> set (forIndices (effectiveFilterHeight convInfo) (dilationHeight convInfo)
                          (w + dilationHeight convInfo)).
           xRCorner + w < 0 \<or> xRCorner + w \<ge> inHeight convInfo"
      using 1(3) unfolding unf by simp
    show ?thesis
      unfolding rowLoop_skip[OF True skip]
      by (rule 1(1)[OF conjI[OF True 1(2)] 1(2) rest])
  next
    case False
    then show ?thesis by (simp add: rowLoop_done)
  qed
qed

lemma main_rank4:
  assumes "length (inShape convInfo) = 4" and "outShape convInfo = [s0, s1, s2, s3]"
    and "gl_GlobalInvocationID env = (gx, gy, gz)"
  shows "main convInfo env =
     (case rowLoop convInfo env (int gz div s3) (int gz - int gz div s3 * s3)
             (int gx * strideHeight convInfo - pad_top (padInfo convInfo))
             (int gy * strideWidth convInfo - pad_left (padInfo convInfo)) 0 0 of
        None \<Rightarrow> Inl Diverges
      | Some m \<Rightarrow> Inr (getFlatIndex (int gz div s3, int gx, int gy, int gz - int gz div s3 * s3)
                        (s0, s1, s2, s3), m))"
  using assms by (simp add: main_def getOutputCoords_rank4 Let_def split: option.split)

text \<open>What an invocation writes when both dilations are positive: the flat index of its
  coordinates and the fold of \<open>rowStep\<close> over the rows of the window, from the seed 0.\<close>

lemma main_window_max:
  assumes "length (inShape convInfo) = 4" and "outShape convInfo = [s0, s1, s2, s3]"
    and "gl_GlobalInvocationID env = (gx, gy, gz)"
    and "0 < dilationHeight convInfo" and "0 < dilationWidth convInfo"
  shows "main convInfo env =
     Inr (getFlatIndex (int gz div s3, int gx, int gy, int gz - int gz div s3 * s3) (s0, s1, s2, s3),
          foldl (rowStep convInfo env (int gz div s3) (int gz - int gz div s3 * s3)
                   (int gx * strideHeight convInfo - pad_top (padInfo convInfo))
                   (int gy * strideWidth convInfo - pad_left (padInfo convInfo)))
            0 (forIndices (effectiveFilterHeight convInfo) (dilationHeight convInfo) 0))"
  unfolding main_rank4[OF assms(1-3)] rowLoop_fold[OF assms(4,5)] by simp

lemma forIndices_2_1: "forIndices 2 1 0 = [0, 1]"
  by (simp add: forIndices.simps)

section \<open>Recovery of the output coordinates\<close>

lemma computeStrides_Cons:
  "computeStrides (a # b # rest) = prod_list (b # rest) # computeStrides (b # rest)"
  for a b :: int
proof (induction rest arbitrary: a b)
  case Nil
  show ?case by simp
next
  case (Cons c rest)
  show ?case
    by (simp add: Cons.IH[of b c] Let_def mult.commute)
qed

lemma prod_list_positive:
  "\<forall>n \<in> set xs. 0 < n \<Longrightarrow> 0 < prod_list xs" for xs :: "int list"
  by (induction xs) simp_all

lemma div_less_of_less_mult:
  fixes f a P :: int
  assumes "0 < P" and "f < a * P"
  shows "f div P < a"
proof -
  have "f div P * P + f mod P = f"
    by simp
  moreover have "0 \<le> f mod P"
    using assms(1) by simp
  ultimately have "f div P * P < a * P"
    using assms(2) by linarith
  then show ?thesis
    using assms(1) by (simp add: mult_less_cancel_right)
qed

lemma length_computeStrides:
  "length (computeStrides dims) = length dims - 1" for dims :: "int list"
  by (induction dims rule: computeStrides.induct) (simp_all add: Let_def)

lemma length_decompose:
  "strides \<noteq> [] \<Longrightarrow> length (decompose strides f) = Suc (length strides)"
  by (induction strides f rule: decompose.induct) (simp_all add: Let_def)

lemma decompose_roundtrip:
  "strides \<noteq> [] \<Longrightarrow>
     sum_list (map2 (\<lambda>c s. c * s) (decompose strides f) (strides @ [1])) = f"
  by (induction strides f rule: decompose.induct) (simp_all add: Let_def)

lemma decompose_in_range:
  assumes "2 \<le> length dims" and "\<forall>n \<in> set dims. 0 < n" and "0 \<le> f" and "f < prod_list dims"
  shows "list_all2 (\<lambda>c n. 0 \<le> c \<and> c < n) (decompose (computeStrides dims) f) dims"
  using assms
proof (induction dims arbitrary: f rule: computeStrides.induct)
  case (1 a b c shape)
  let ?P = "prod_list (b # c # shape)"
  have P: "0 < ?P"
    using 1(3) by (intro prod_list_positive) auto
  have lt: "f < a * ?P"
    using 1(5) by simp
  have d: "0 \<le> f div ?P" "f div ?P < a"
    using 1(4) P div_less_of_less_mult[OF P lt] by (simp_all add: pos_imp_zdiv_nonneg_iff)
  have r: "f - f div ?P * ?P = f mod ?P"
    by (simp add: minus_div_mult_eq_mod)
  have r0: "0 \<le> f mod ?P" "f mod ?P < ?P"
    using P by simp_all
  have IH: "list_all2 (\<lambda>c n. 0 \<le> c \<and> c < n)
      (decompose (computeStrides (b # c # shape)) (f mod ?P)) (b # c # shape)"
    using 1(3) r0 by (intro 1(1)) auto
  obtain t ss where ts: "computeStrides (b # c # shape) = t # ss"
    using computeStrides_Cons[of b c shape] by blast
  have "decompose (computeStrides (a # b # c # shape)) f
      = f div ?P # decompose (computeStrides (b # c # shape)) (f mod ?P)"
    unfolding computeStrides_Cons[of a b "c # shape"] ts
    by (simp add: Let_def minus_div_mult_eq_mod)
  then show ?case
    using d IH by simp
next
  case (2 a b)
  have lt: "f < a * b" using 2(4) by simp
  have b: "0 < b" using 2(2) by simp
  have d: "0 \<le> f div b" "f div b < a"
    using 2(3) b div_less_of_less_mult[OF b lt] by (simp_all add: pos_imp_zdiv_nonneg_iff)
  have r: "f - f div b * b = f mod b"
    by (simp add: minus_div_mult_eq_mod)
  show ?case
    using d b by (simp add: Let_def r)
qed simp_all

lemma gatherGroup_multi:
  assumes "2 \<le> length arr"
  shows "gatherGroup outputShape' arr f
           = zip arr (decompose (computeStrides (map (\<lambda>d. outputShape' ! nat d) arr)) f)"
    and "length (decompose (computeStrides (map (\<lambda>d. outputShape' ! nat d) arr)) f) = length arr"
proof -
  let ?dims = "map (\<lambda>d. outputShape' ! nat d) arr"
  show "gatherGroup outputShape' arr f = zip arr (decompose (computeStrides ?dims) f)"
    using assms by (simp add: gatherGroup_def)
  have "computeStrides ?dims \<noteq> []"
    using assms length_computeStrides[of ?dims] by (cases "computeStrides ?dims") auto
  then show "length (decompose (computeStrides ?dims) f) = length arr"
    using assms by (simp add: length_decompose length_computeStrides)
qed

text \<open>
  Claim C1 (coordinate recovery is the inverse of flattening). Let \<open>arr\<close> be a dispatch
  group of two or more dimensions, \<open>dims\<close> the sizes of these dimensions in the output
  shape, all positive, and \<open>f\<close> a flat index with \<open>0 \<le> f < product of dims\<close>. The emitted
  decomposition (each coordinate but the last is the remainder divided by the stride, and
  the stride times the coordinate is subtracted from the remainder; the last coordinate is
  the final remainder) declares the dimensions of the group in their order, its
  coordinates flatten back to \<open>f\<close> under the row-major strides of \<open>dims\<close>, and each
  coordinate lies within its dimension. A group of one dimension \<open>k\<close> receives the
  invocation-id component \<open>g\<close> unchanged. For an output shape of four entries,
  \<^verbatim>\<open>getOutputCoords()\<close> returns the two coordinates of the group \<open>[0, 3]\<close>, recovered
  from the component \<open>z\<close>, around the components \<open>x\<close> and \<open>y\<close>. The group \<open>[0, 3]\<close> of
  the fixed arrangement is the instance of the witness.
\<close>

theorem coordinate_recovery_roundtrip:
  assumes "2 \<le> length arr"
    and "dims = map (\<lambda>d. outputShape' ! nat d) arr"
    and "\<forall>n \<in> set dims. 0 < n"
    and "0 \<le> f" and "f < prod_list dims"
  shows "map fst (gatherGroup outputShape' arr f) = arr
       \<and> flattenGroup dims (map snd (gatherGroup outputShape' arr f)) = f
       \<and> list_all2 (\<lambda>c n. 0 \<le> c \<and> c < n) (map snd (gatherGroup outputShape' arr f)) dims
       \<and> gatherGroup outputShape' [k] g = [(k, g)]
       \<and> (\<exists>c0 c3. map snd (gatherGroup [s0, s1, s2, s3] [0, 3] (int gz)) = [c0, c3]
             \<and> getOutputCoords [s0, s1, s2, s3] [s0, s1, s2, s3] (gx, gy, gz)
                 = Some [c0, int gx, int gy, c3])"
proof -
  let ?coords = "decompose (computeStrides dims) f"
  have g: "gatherGroup outputShape' arr f = zip arr ?coords" and len: "length ?coords = length arr"
    using gatherGroup_multi[OF assms(1)] assms(2) by simp_all
  have fst: "map fst (gatherGroup outputShape' arr f) = arr"
    and snd: "map snd (gatherGroup outputShape' arr f) = ?coords"
    unfolding g using len by simp_all
  have ne: "computeStrides dims \<noteq> []"
    using assms(1,2) length_computeStrides[of dims] by (cases "computeStrides dims") auto
  have flat: "flattenGroup dims ?coords = f"
    unfolding flattenGroup_def by (rule decompose_roundtrip[OF ne])
  have "2 \<le> length dims"
    using assms(1,2) by simp
  then have range: "list_all2 (\<lambda>c n. 0 \<le> c \<and> c < n) ?coords dims"
    using assms(3-5) by (rule decompose_in_range)
  have fixed: "map snd (gatherGroup [s0, s1, s2, s3] [0, 3] (int gz))
      = [int gz div s3, int gz - int gz div s3 * s3]"
    by (simp add: gatherGroup_def Let_def)
  show ?thesis
    using fst flat range fixed getOutputCoords_rank4[of s0 s1 s2 s3 s0 s1 s2 s3 gx gy gz]
    unfolding snd by (simp add: gatherGroup_def)
qed

theorem coordinate_recovery_roundtrip_witness:
  "map fst (gatherGroup [2, 3, 3, 5] [0, 3] 7) = [0, 3]
   \<and> map snd (gatherGroup [2, 3, 3, 5] [0, 3] 7) = [1, 2]
   \<and> flattenGroup [2, 5] [1, 2] = 7
   \<and> gatherGroup [2, 3, 3, 5] [1] 2 = [(1, 2)]
   \<and> getOutputCoords [2, 3, 3, 5] [2, 3, 3, 5] (2, 0, 7) = Some [1, 2, 0, 2]"
proof -
  have coords: "map snd (gatherGroup [2, 3, 3, 5] [0, 3] 7) = [1, 2]"
    by (simp add: gatherGroup_def Let_def)
  have "int 7 = 7" "int 2 = 2" "int 0 = 0" by simp_all
  then show ?thesis
    using coordinate_recovery_roundtrip[of "[0, 3]" "[2, 5]" "[2, 3, 3, 5]" 7 1 2 2 3 3 5 7 2 0]
    unfolding coords by (auto simp add: coords)
qed

section \<open>Boundaries of the window\<close>

text \<open>
  Claim C5 (boundary asymmetry). \<open>getValue\<close> returns the padding value 0 when the column
  \<open>xC\<close> is outside \<open>[0, inWidth)\<close>, and otherwise the value of the input buffer at the
  row-major flat index of \<open>(batch, xR, xC, d)\<close> in the input shape, whatever the row
  \<open>xR\<close> is: the helper checks no row bound. The row loop skips an iteration whose row
  \<open>xRCorner + wR\<close> is outside \<open>[0, inHeight)\<close>: the loop continues at the next row with
  the running maximum unchanged, so that the row contributes nothing.
\<close>

theorem boundary_asymmetry:
  "(xC < 0 \<or> xC \<ge> inWidth convInfo \<longrightarrow> getValue convInfo env batch xR xC d = 0)
   \<and> (0 \<le> xC \<and> xC < inWidth convInfo \<and> inShape convInfo = [i0, i1, i2, i3] \<longrightarrow>
        getValue convInfo env batch xR xC d
          = buf_x env (batch * (i1 * i2 * i3) + xR * (i2 * i3) + xC * i3 + d))
   \<and> (wR < effectiveFilterHeight convInfo
        \<and> (xRCorner + wR < 0 \<or> xRCorner + wR \<ge> inHeight convInfo) \<longrightarrow>
        rowLoop convInfo env batch d xRCorner xCCorner wR m
          = rowLoop convInfo env batch d xRCorner xCCorner (wR + dilationHeight convInfo) m)"
proof (intro conjI impI)
  assume "xC < 0 \<or> xC \<ge> inWidth convInfo"
  then show "getValue convInfo env batch xR xC d = 0"
    by (auto simp add: getValue_def initializationValue_def)
next
  assume "0 \<le> xC \<and> xC < inWidth convInfo \<and> inShape convInfo = [i0, i1, i2, i3]"
  then show "getValue convInfo env batch xR xC d
      = buf_x env (batch * (i1 * i2 * i3) + xR * (i2 * i3) + xC * i3 + d)"
    by (simp add: getValue_def)
next
  assume "wR < effectiveFilterHeight convInfo
        \<and> (xRCorner + wR < 0 \<or> xRCorner + wR \<ge> inHeight convInfo)"
  then show "rowLoop convInfo env batch d xRCorner xCCorner wR m
          = rowLoop convInfo env batch d xRCorner xCCorner (wR + dilationHeight convInfo) m"
    using rowLoop_skip by blast
qed

theorem boundary_asymmetry_witness:
  "getValue scenarioGeometry (envOf [1, 2, 3, 4, 5, 6, 7, 8, 9, 10, 11, 12, 13, 14, 15, 16] (0, 0, 0))
       0 2 4 0 = 0
   \<and> getValue scenarioGeometry (envOf [1, 2, 3, 4, 5, 6, 7, 8, 9, 10, 11, 12, 13, 14, 15, 16] (0, 0, 0))
       0 2 1 0 = 10
   \<and> rowLoop scenarioGeometry (envOf [1, 2, 3, 4, 5, 6, 7, 8, 9, 10, 11, 12, 13, 14, 15, 16] (0, 0, 0))
       0 0 (- 1) 0 0 0
     = rowLoop scenarioGeometry (envOf [1, 2, 3, 4, 5, 6, 7, 8, 9, 10, 11, 12, 13, 14, 15, 16] (0, 0, 0))
       0 0 (- 1) 0 1 0"
proof -
  let ?env = "envOf [1, 2, 3, 4, 5, 6, 7, 8, 9, 10, 11, 12, 13, 14, 15, 16] (0, 0, 0)"
  have a: "getValue scenarioGeometry ?env 0 2 4 0 = 0"
    using boundary_asymmetry[of 4 scenarioGeometry ?env 0 2 0]
    by (simp add: scenarioGeometry_def)
  have b: "getValue scenarioGeometry ?env 0 2 1 0 = 10"
    using boundary_asymmetry[of 1 scenarioGeometry ?env 0 2 0 1 4 4 1]
    by (simp add: scenarioGeometry_def envOf_def bufferOf_def)
  have c: "rowLoop scenarioGeometry ?env 0 0 (- 1) 0 0 0 = rowLoop scenarioGeometry ?env 0 0 (- 1) 0 1 0"
    using boundary_asymmetry[of 0 scenarioGeometry ?env 0 0 0 1 4 4 1 0 "- 1" 0 0]
    by (simp add: scenarioGeometry_def)
  show ?thesis
    using a b c by simp
qed

text \<open>
  Claim C6 (zero-seeded maximum). For a geometry of rank-4 shapes with a positive row
  dilation, an invocation all of whose window rows are skipped (each row
  \<open>gx * strideHeight - padTop + wR\<close> that the row loop visits is outside \<open>[0, inHeight)\<close>)
  ends and writes exactly the seed 0 at the flat index of its coordinates.
\<close>

theorem zero_seeded_maximum:
  assumes "length (inShape convInfo) = 4" and "outShape convInfo = [s0, s1, s2, s3]"
    and "gl_GlobalInvocationID env = (gx, gy, gz)"
    and "0 < dilationHeight convInfo"
    and "\<forall>wR \<in> set (forIndices (effectiveFilterHeight convInfo) (dilationHeight convInfo) 0).
           int gx * strideHeight convInfo - pad_top (padInfo convInfo) + wR < 0
           \<or> int gx * strideHeight convInfo - pad_top (padInfo convInfo) + wR \<ge> inHeight convInfo"
  shows "main convInfo env =
     Inr (getFlatIndex (int gz div s3, int gx, int gy, int gz - int gz div s3 * s3) (s0, s1, s2, s3),
          0)"
  unfolding main_rank4[OF assms(1-3)] rowLoop_all_skipped[OF assms(4,5)] by simp

theorem zero_seeded_maximum_witness:
  "main paddedGeometry (envOf [5, 5, 5, 5, 5, 5, 5, 5, 5, 5, 5, 5, 5, 5, 5, 5] (0, 1, 0)) = Inr (1, 0)"
proof -
  let ?env = "envOf [5, 5, 5, 5, 5, 5, 5, 5, 5, 5, 5, 5, 5, 5, 5, 5] (0, 1, 0)"
  have rows: "forIndices (effectiveFilterHeight paddedGeometry) (dilationHeight paddedGeometry) 0 = [0, 1]"
    by (simp add: paddedGeometry_def forIndices_2_1)
  show ?thesis
    using zero_seeded_maximum[of paddedGeometry 1 4 4 1 ?env 0 1 0]
    unfolding rows
    by (simp add: paddedGeometry_def envOf_def)
qed

section \<open>The window loops and the writes of the grid\<close>

lemma forIndices_3_2: "forIndices 3 2 0 = [0, 2]"
  by (simp add: forIndices.simps)

lemma forIndices_1_1: "forIndices 1 1 0 = [0]"
  by (simp add: forIndices.simps)

text \<open>
  Claim C3 (dilated window traversal), at a geometry where the code departs from it. The
  row loop visits the rows \<open>xRCorner + wR\<close> for \<open>wR = 0, dilationHeight, ...\<close> below
  the effective filter height, as the claim says. The column loop computes
  \<open>xC = xCCorner + wC * dilationWidth\<close> while \<open>wC\<close> itself advances by \<open>dilationWidth\<close>:
  for a filter of width 2 and dilation 2 (effective width 3) over the input row
  \<open>[1, 0, 3, 0, 7]\<close> the counter takes the values 0 and 2, the columns read are 0 and 4,
  and the invocation writes 7. The columns \<open>xCCorner + wC\<close> of the claim, 0 and 2, give 3.
\<close>

theorem dilated_columns_evaluation:
  "main dilatedGeometry (envOf [1, 0, 3, 0, 7] (0, 0, 0)) = Inr (0, 7)
   \<and> map (\<lambda>wC. 0 + wC * dilationWidth dilatedGeometry)
         (forIndices (effectiveFilterWidth dilatedGeometry) (dilationWidth dilatedGeometry) 0) = [0, 4]
   \<and> max (bufferOf [1, 0, 3, 0, 7] 2) (max (bufferOf [1, 0, 3, 0, 7] 0) 0) = 3"
proof -
  let ?env = "envOf [1, 0, 3, 0, 7] (0, 0, 0)"
  have rows: "forIndices (effectiveFilterHeight dilatedGeometry) (dilationHeight dilatedGeometry) 0 = [0]"
    and cols: "forIndices (effectiveFilterWidth dilatedGeometry) (dilationWidth dilatedGeometry) 0 = [0, 2]"
    by (simp_all add: dilatedGeometry_def forIndices_3_2 forIndices_1_1)
  have step: "rowStep dilatedGeometry ?env 0 0 0 0 0 0 = 7"
    unfolding rowStep_def cols
    by (simp add: dilatedGeometry_def envOf_def getValue_def bufferOf_def initializationValue_def)
  have "main dilatedGeometry ?env
      = Inr (getFlatIndex (int 0 div 1, int 0, int 0, int 0 - int 0 div 1 * 1) (1, 1, 3, 1),
          foldl (rowStep dilatedGeometry ?env (int 0 div 1) (int 0 - int 0 div 1 * 1)
                   (int 0 * strideHeight dilatedGeometry - pad_top (padInfo dilatedGeometry))
                   (int 0 * strideWidth dilatedGeometry - pad_left (padInfo dilatedGeometry)))
            0 [0])"
    unfolding rows[symmetric]
    by (rule main_window_max) (simp_all add: dilatedGeometry_def envOf_def)
  moreover have "pad_top (padInfo dilatedGeometry) = 0" "pad_left (padInfo dilatedGeometry) = 0"
    by (simp_all add: dilatedGeometry_def)
  ultimately have "main dilatedGeometry ?env = Inr (0, 7)"
    by (simp add: step)
  then show ?thesis
    unfolding cols by (simp add: dilatedGeometry_def bufferOf_def)
qed

lemma invocationIds_odd:
  assumes "dispatch p = (Num 2, Num 2, Num 1)" and "tileSize p = (2, 2, 1)"
  shows "invocationIds p =
     [(0, 0, 0), (0, 1, 0), (0, 2, 0), (0, 3, 0), (1, 0, 0), (1, 1, 0), (1, 2, 0), (1, 3, 0),
      (2, 0, 0), (2, 1, 0), (2, 2, 0), (2, 3, 0), (3, 0, 0), (3, 1, 0), (3, 2, 0), (3, 3, 0)]"
  using assms by (simp add: invocationIds_def upt_rec)

lemma main_index:
  assumes "length (inShape convInfo) = 4" and "outShape convInfo = [s0, s1, s2, s3]"
    and "0 < dilationHeight convInfo" and "0 < dilationWidth convInfo"
  shows "map_sum id fst (main convInfo (env\<lparr>gl_GlobalInvocationID := (gx, gy, gz)\<rparr>))
     = Inr (getFlatIndex (int gz div s3, int gx, int gy, int gz - int gz div s3 * s3) (s0, s1, s2, s3))"
  using main_window_max[OF assms(1,2) _ assms(3,4), of "env\<lparr>gl_GlobalInvocationID := (gx, gy, gz)\<rparr>" gx gy gz]
  by simp

text \<open>
  Claim C4 (each output index written exactly once, none out of range), at a geometry
  where the code departs from it. For the output shape \<open>[1, 3, 3, 1]\<close> the dispatch is
  \<open>(2, 2, 1)\<close>, so the grid has 4 x 4 x 1 invocations for 9 output elements, and
  \<^verbatim>\<open>main\<close> has no bounds check: the flat indices 3, 6 and 9 are written twice, and the
  indices 9, 10, 11 and 12 lie outside \<open>[0, 9)\<close>.
\<close>

theorem odd_shape_writes:
  "\<exists>p. MaxPoolProgram ivecDataType oddGeometry = Inr p
      \<and> map (map_sum id fst) (runProgram oddGeometry p env)
          = map Inr [0, 1, 2, 3, 3, 4, 5, 6, 6, 7, 8, 9, 9, 10, 11, 12]
      \<and> prod_list (outputShape p) = 9"
proof -
  have "ivecDataType (length (outShape oddGeometry)) = Inr ''ivec4''"
    by (rule ivecDataType_length) (simp add: oddGeometry_def)
  then obtain p where p: "MaxPoolProgram ivecDataType oddGeometry = Inr p"
    using MaxPoolProgram_succeeds by blast
  have "computeDispatch (outShape oddGeometry) init_tileSize = Inr (Num 2, Num 2, Num 1)"
    by (simp add: oddGeometry_def computeDispatch_rank4 isSafeInteger_def)
  then have dp: "dispatch p = (Num 2, Num 2, Num 1)"
    using MaxPoolProgram_fields(5)[OF p] by simp
  note ids = invocationIds_odd[OF dp MaxPoolProgram_fields(4)[OF p]]
  have idx: "map_sum id fst (main oddGeometry (env\<lparr>gl_GlobalInvocationID := (gx, gy, gz)\<rparr>))
     = Inr (getFlatIndex (int gz div 1, int gx, int gy, int gz - int gz div 1 * 1) (1, 3, 3, 1))"
    for gx gy gz
    by (rule main_index) (simp_all add: oddGeometry_def)
  have "map (map_sum id fst) (runProgram oddGeometry p env)
          = map Inr [0, 1, 2, 3, 3, 4, 5, 6, 6, 7, 8, 9, 9, 10, 11, 12]"
    unfolding runProgram_def ids by (simp add: idx)
  moreover have "prod_list (outputShape p) = 9"
    using MaxPoolProgram_fields(1)[OF p] by (simp add: oddGeometry_def)
  ultimately show ?thesis
    using p by blast
qed

section \<open>Identifiers of the shader text\<close>

lemma splitIdents_nonempty: "splitIdents cur s \<noteq> []"
  by (induction s arbitrary: cur) auto

lemma splitIdents_cur:
  "splitIdents cur s = (cur @ hd (splitIdents [] s)) # tl (splitIdents [] s)"
proof (induction s arbitrary: cur)
  case Nil
  show ?case by simp
next
  case (Cons c cs)
  show ?case
  proof (cases "isIdentChar c")
    case True
    show ?thesis
      using Cons[of "cur @ [c]"] Cons[of "[c]"] True by simp
  next
    case False
    then show ?thesis by simp
  qed
qed

lemma marked_not_padStride: "marked w \<Longrightarrow> w \<notin> set padStride"
  by (auto simp add: marked_def padStride_def)

lemma marked_append: "marked (a @ b) = (marked a \<or> marked b)"
  by (auto simp add: marked_def)

lemma safeFrom_split:
  "safeFrom cur s = (cur @ hd (splitIdents [] s) \<notin> set padStride \<and> safeTail s)"
  unfolding safeFrom_def safeTail_def
  by (subst splitIdents_cur) auto

lemma safeFrom_marked: "marked cur \<Longrightarrow> safeFrom cur s = safeTail s"
  by (simp add: safeFrom_split marked_not_padStride marked_append)

lemma safeFrom_Nil: "safeFrom cur [] = (cur \<notin> set padStride)"
  by (simp add: safeFrom_def)

lemma safeFrom_Cons:
  "safeFrom cur (c # cs) =
     (if isIdentChar c then safeFrom (cur @ [c]) cs else cur \<notin> set padStride \<and> safeFrom [] cs)"
  by (simp add: safeFrom_def)

lemma safeTail_Nil: "safeTail [] = True"
  by (simp add: safeTail_def)

lemma safeTail_Cons:
  "safeTail (c # cs) = (if isIdentChar c then safeTail cs else safeFrom [] cs)"
proof (cases "isIdentChar c")
  case True
  have "tl (splitIdents [c] cs) = tl (splitIdents [] cs)"
    by (subst splitIdents_cur) simp
  then show ?thesis
    using True by (simp add: safeTail_def)
next
  case False
  then show ?thesis
    by (simp add: safeTail_def safeFrom_def)
qed

lemma splitIdents_ident_append:
  "\<forall>c \<in> set a. isIdentChar c \<Longrightarrow> splitIdents cur (a @ b) = splitIdents (cur @ a) b"
  by (induction a arbitrary: cur) simp_all

lemma splitIdents_separator:
  "\<not> isIdentChar c \<Longrightarrow> splitIdents cur (a @ c # b) = splitIdents cur a @ splitIdents [] b"
  by (induction a arbitrary: cur) simp_all

lemma safeFrom_ident_marked:
  assumes "\<forall>c \<in> set v. isIdentChar c" and "marked v"
  shows "safeFrom cur (v @ rest) = safeTail rest"
proof -
  have "safeFrom cur (v @ rest) = safeFrom (cur @ v) rest"
    by (simp add: safeFrom_def splitIdents_ident_append[OF assms(1)])
  also have "\<dots> = safeTail rest"
    by (rule safeFrom_marked) (simp add: marked_append assms(2))
  finally show ?thesis .
qed

lemma safeTail_ident:
  assumes "\<forall>c \<in> set v. isIdentChar c"
  shows "safeTail (v @ rest) = safeTail rest"
proof -
  have "tl (splitIdents [] (v @ rest)) = tl (splitIdents [] rest)"
    unfolding splitIdents_ident_append[OF assms]
    by (subst splitIdents_cur) simp
  then show ?thesis
    by (simp add: safeTail_def)
qed

lemma digitChar_digit: "n < 10 \<Longrightarrow> digitChar n \<in> set ''0123456789''"
  unfolding digitChar_def by (rule nth_mem) simp

lemma showNat_digits: "set (showNat n) \<subseteq> set ''0123456789'' \<and> showNat n \<noteq> []"
proof (induction n rule: showNat.induct)
  case (1 n)
  show ?case
  proof (cases "n < 10")
    case True
    then show ?thesis
      using digitChar_digit[of n] by (subst (1 2) showNat.simps) simp
  next
    case False
    have "n mod 10 < 10" by simp
    then show ?thesis
      using 1[OF False] False digitChar_digit[of "n mod 10"]
      by (subst (1 2) showNat.simps) simp
  qed
qed

lemma digit_ident: "c \<in> set ''0123456789'' \<Longrightarrow> isIdentChar c"
  unfolding isIdentChar_def by (elim rev_subsetD) simp

lemma digit_marked: "c \<in> set ''0123456789'' \<Longrightarrow> c \<in> set ''0123456789ufN''"
  by (elim rev_subsetD) simp

lemma showNat_ident: "\<forall>c \<in> set (showNat n). isIdentChar c"
  using showNat_digits[of n] digit_ident by blast

lemma showNat_marked: "marked (showNat n)"
proof -
  obtain c where "c \<in> set (showNat n)"
    using showNat_digits[of n] by (cases "showNat n") auto
  then show ?thesis
    using showNat_digits[of n] digit_marked unfolding marked_def by blast
qed

lemma safeFrom_showNat: "safeFrom cur (showNat n @ rest) = safeTail rest"
  by (rule safeFrom_ident_marked[OF showNat_ident showNat_marked])

lemma safeTail_showNat: "safeTail (showNat n @ rest) = safeTail rest"
  by (rule safeTail_ident[OF showNat_ident])

lemma minus_not_ident: "\<not> isIdentChar CHR ''-''"
  by (simp add: isIdentChar_def)

lemma safeFrom_showInt:
  "cur \<notin> set padStride \<Longrightarrow> safeFrom cur (showInt n @ rest) = safeTail rest"
  by (simp add: showInt_def safeFrom_Cons minus_not_ident safeFrom_showNat)

lemma safeTail_showInt: "safeTail (showInt n @ rest) = safeTail rest"
  by (simp add: showInt_def safeTail_Cons minus_not_ident safeFrom_showNat safeTail_showNat)

lemma safeFrom_showNum:
  assumes "cur \<notin> set padStride"
  shows "safeFrom cur (showNum v @ rest) = safeTail rest"
proof (cases v)
  case (Num n)
  then show ?thesis using assms by (simp add: safeFrom_showInt)
next
  case Undefined
  have "safeFrom cur (''undefined'' @ rest) = safeTail rest"
    by (rule safeFrom_ident_marked) (simp_all add: isIdentChar_def marked_def)
  then show ?thesis using Undefined by simp
next
  case NaN
  have "safeFrom cur (''NaN'' @ rest) = safeTail rest"
    by (rule safeFrom_ident_marked) (simp_all add: isIdentChar_def marked_def)
  then show ?thesis using NaN by simp
next
  case Infinity
  have "safeFrom cur (''Infinity'' @ rest) = safeTail rest"
    by (rule safeFrom_ident_marked) (simp_all add: isIdentChar_def marked_def)
  then show ?thesis using Infinity by simp
next
  case MinusInfinity
  have "safeFrom [] (''Infinity'' @ rest) = safeTail rest"
    by (rule safeFrom_ident_marked) (simp_all add: isIdentChar_def marked_def)
  then show ?thesis
    using MinusInfinity assms by (simp add: safeFrom_Cons minus_not_ident)
qed

lemma safeTail_showNum: "safeTail (showNum v @ rest) = safeTail rest"
proof (cases v)
  case (Num n)
  then show ?thesis by (simp add: safeTail_showInt)
next
  case Undefined
  have "safeTail (''undefined'' @ rest) = safeTail rest"
    by (rule safeTail_ident) (simp add: isIdentChar_def)
  then show ?thesis using Undefined by simp
next
  case NaN
  have "safeTail (''NaN'' @ rest) = safeTail rest"
    by (rule safeTail_ident) (simp add: isIdentChar_def)
  then show ?thesis using NaN by simp
next
  case Infinity
  have "safeTail (''Infinity'' @ rest) = safeTail rest"
    by (rule safeTail_ident) (simp add: isIdentChar_def)
  then show ?thesis using Infinity by simp
next
  case MinusInfinity
  have "safeFrom [] (''Infinity'' @ rest) = safeTail rest"
    by (rule safeFrom_ident_marked) (simp_all add: isIdentChar_def marked_def)
  then show ?thesis
    using MinusInfinity by (simp add: safeTail_Cons minus_not_ident)
qed

lemma Nil_not_padStride: "[] \<notin> set padStride"
  by (simp add: padStride_def)

lemma comma_not_ident: "\<not> isIdentChar CHR '',''"
  by (simp add: isIdentChar_def)

lemma safe_join_showInt:
  assumes "\<not> isIdentChar c"
  shows "xs \<noteq> [] \<Longrightarrow>
     safeFrom [] (join (map showInt xs) @ c # rest) = safeFrom [] rest
     \<and> safeTail (join (map showInt xs) @ c # rest) = safeFrom [] rest"
proof (induction xs)
  case Nil
  then show ?case by simp
next
  case (Cons x xs)
  show ?case
  proof (cases xs)
    case Nil
    then show ?thesis
      using assms
      by (simp add: safeTail_showInt safeFrom_showInt safeTail_Cons Nil_not_padStride)
  next
    case (Cons y ys)
    then show ?thesis
      using Cons.IH
      by (simp add: safeTail_showInt safeFrom_showInt safeTail_Cons comma_not_ident
          Nil_not_padStride)
  qed
qed

lemma safeFrom_join_showInt:
  assumes "\<not> isIdentChar c"
  shows "safeFrom [] (join (map showInt xs) @ c # rest) = safeFrom [] rest"
proof (cases xs)
  case Nil
  then show ?thesis
    using assms by (simp add: safeFrom_Cons Nil_not_padStride)
next
  case (Cons y ys)
  then show ?thesis
    using safe_join_showInt[OF assms, of xs rest] by simp
qed

lemma dimension_ident: "\<forall>c \<in> set (''d'' @ showNat i). isIdentChar c"
  using showNat_ident[of i] by (simp add: isIdentChar_def)

lemma dimension_marked: "marked (''d'' @ showNat i)"
  unfolding marked_append using showNat_marked by blast

lemma safe_join_dimensions:
  assumes "\<not> isIdentChar c"
  shows "is \<noteq> [] \<Longrightarrow>
     safeFrom [] (join (map (\<lambda>i. ''d'' @ showNat i) is) @ c # rest) = safeFrom [] rest
     \<and> safeTail (join (map (\<lambda>i. ''d'' @ showNat i) is) @ c # rest) = safeFrom [] rest"
proof (induction "is")
  case Nil
  then show ?case by simp
next
  case (Cons i "is")
  have hd: "safeFrom [] ((''d'' @ showNat i) @ r) = safeTail r"
    and tl: "safeTail ((''d'' @ showNat i) @ r) = safeTail r" for r
    by (rule safeFrom_ident_marked[OF dimension_ident dimension_marked],
        rule safeTail_ident[OF dimension_ident])
  show ?case
  proof (cases "is")
    case Nil
    then show ?thesis
      using assms hd[of "c # rest"] tl[of "c # rest"] by (simp add: safeTail_Cons)
  next
    case (Cons j js)
    then show ?thesis
      using Cons.IH hd[of "CHR '','' # join (map (\<lambda>i. ''d'' @ showNat i) is) @ c # rest"]
        tl[of "CHR '','' # join (map (\<lambda>i. ''d'' @ showNat i) is) @ c # rest"]
      by (simp add: safeTail_Cons comma_not_ident)
  qed
qed

lemma safeFrom_join_dimensions:
  assumes "\<not> isIdentChar c"
  shows "safeFrom [] (join (map (\<lambda>i. ''d'' @ showNat i) is) @ c # rest) = safeFrom [] rest"
proof (cases "is")
  case Nil
  then show ?thesis
    using assms by (simp add: safeFrom_Cons Nil_not_padStride)
next
  case (Cons y ys)
  then show ?thesis
    using safe_join_dimensions[OF assms, of "is" rest] by simp
qed

lemma safeFrom_separated:
  assumes "\<not> isIdentChar c"
  shows "safeFrom [] (a @ c # rest) = (safeFrom [] a \<and> safeFrom [] rest)"
  unfolding safeFrom_def splitIdents_separator[OF assms] by auto

lemma js_index_groups:
  "js_index [1] 0 = Num 1" "js_index [2] 0 = Num 2" "js_index [0, 3] 0 = Num 0"
  "js_index [0, 3] 1 = Num 3"
  by (simp_all add: js_index_def)

lemma showInt_small:
  "showInt 0 = ''0''" "showInt 1 = ''1''" "showInt 2 = ''2''" "showInt 3 = ''3''"
  by (simp_all add: showInt_def showNat.simps digitChar_def)

lemma showNat_small:
  "showNat 0 = ''0''" "showNat 1 = ''1''" "showNat 2 = ''2''"
  "showNat (Suc 0) = ''1''" "showNat (Suc (Suc 0)) = ''2''"
  by (simp_all add: showNat.simps digitChar_def)

lemma gatherDimensionsStr_eq:
  "concat (map (\<lambda>i. groupStr outputShape' i (dispatchArrangement ! i))
     [0..<length dispatchArrangement]) =
   ''uint d1 = gl_GlobalInvocationID.x;'' @
   ''uint d2 = gl_GlobalInvocationID.y;'' @
   ''uint index2 = \<newline>'' @
   ''            gl_GlobalInvocationID.z;'' @
   ''\<newline>'' @
   ''              uint d0 = index2 / '' @ showNum (js_index outputShape' 3) @ '';\<newline>'' @
   ''            '' @
   ''\<newline>'' @
   ''                uint d3 = index2 - d0 * '' @ showNum (js_index outputShape' 3) @ '';\<newline>'' @
   ''              ''"
  by (simp add: dispatchArrangement_def groupStr_def strideStr_def globalInvocationPositions_def
      Let_def js_index_groups showInt_small showNat_small upt_rec[of 0] upt_rec[of 1] upt_rec[of 2]
      numeral_3_eq_3)

lemma isIdentChar_letters:
  "isIdentChar CHR ''0''" "isIdentChar CHR ''1''" "isIdentChar CHR ''2''" "isIdentChar CHR ''3''"
  "isIdentChar CHR ''4''" "isIdentChar CHR ''5''" "isIdentChar CHR ''6''" "isIdentChar CHR ''7''"
  "isIdentChar CHR ''8''" "isIdentChar CHR ''9''" "isIdentChar CHR ''A''" "isIdentChar CHR ''B''"
  "isIdentChar CHR ''C''" "isIdentChar CHR ''D''" "isIdentChar CHR ''E''" "isIdentChar CHR ''F''"
  "isIdentChar CHR ''G''" "isIdentChar CHR ''H''" "isIdentChar CHR ''I''" "isIdentChar CHR ''J''"
  "isIdentChar CHR ''K''" "isIdentChar CHR ''L''" "isIdentChar CHR ''M''" "isIdentChar CHR ''N''"
  "isIdentChar CHR ''O''" "isIdentChar CHR ''P''" "isIdentChar CHR ''Q''" "isIdentChar CHR ''R''"
  "isIdentChar CHR ''S''" "isIdentChar CHR ''T''" "isIdentChar CHR ''U''" "isIdentChar CHR ''V''"
  "isIdentChar CHR ''W''" "isIdentChar CHR ''X''" "isIdentChar CHR ''Y''" "isIdentChar CHR ''Z''"
  "isIdentChar CHR ''_''" "isIdentChar CHR ''a''" "isIdentChar CHR ''b''" "isIdentChar CHR ''c''"
  "isIdentChar CHR ''d''" "isIdentChar CHR ''e''" "isIdentChar CHR ''f''" "isIdentChar CHR ''g''"
  "isIdentChar CHR ''h''" "isIdentChar CHR ''i''" "isIdentChar CHR ''j''" "isIdentChar CHR ''k''"
  "isIdentChar CHR ''l''" "isIdentChar CHR ''m''" "isIdentChar CHR ''n''" "isIdentChar CHR ''o''"
  "isIdentChar CHR ''p''" "isIdentChar CHR ''q''" "isIdentChar CHR ''r''" "isIdentChar CHR ''s''"
  "isIdentChar CHR ''t''" "isIdentChar CHR ''u''" "isIdentChar CHR ''v''" "isIdentChar CHR ''w''"
  "isIdentChar CHR ''x''" "isIdentChar CHR ''y''" "isIdentChar CHR ''z''"
  by (simp_all add: isIdentChar_def)

lemma isIdentChar_separators:
  "\<not> isIdentChar CHR ''\<newline>''" "\<not> isIdentChar CHR '' ''" "\<not> isIdentChar CHR ''(''" "\<not> isIdentChar CHR '')''"
  "\<not> isIdentChar CHR ''*''" "\<not> isIdentChar CHR ''+''" "\<not> isIdentChar CHR '',''" "\<not> isIdentChar CHR ''-''"
  "\<not> isIdentChar CHR ''.''" "\<not> isIdentChar CHR ''/''" "\<not> isIdentChar CHR '';''" "\<not> isIdentChar CHR ''<''"
  "\<not> isIdentChar CHR ''=''" "\<not> isIdentChar CHR ''>''" "\<not> isIdentChar CHR ''[''" "\<not> isIdentChar CHR '']''"
  "\<not> isIdentChar CHR ''{''" "\<not> isIdentChar CHR ''|''" "\<not> isIdentChar CHR ''}''"
  by (simp_all add: isIdentChar_def)

lemma safeFrom_join_dimensions':
  assumes "\<not> isIdentChar c"
  shows "safeFrom [] (join (map (\<lambda>i. CHR ''d'' # showNat i) is) @ c # rest) = safeFrom [] rest"
  using safeFrom_join_dimensions[OF assms, of "is" rest] by simp

lemma safeFrom_identChar:
  "isIdentChar c \<Longrightarrow> safeFrom cur (c # cs) = safeFrom (cur @ [c]) cs"
  by (simp add: safeFrom_Cons)

lemma safeFrom_sepChar:
  "\<not> isIdentChar c \<Longrightarrow> safeFrom cur (c # cs) = (cur \<notin> set padStride \<and> safeFrom [] cs)"
  by (simp add: safeFrom_Cons)

lemma safeTail_identChar: "isIdentChar c \<Longrightarrow> safeTail (c # cs) = safeTail cs"
  by (simp add: safeTail_Cons)

lemma safeTail_sepChar: "\<not> isIdentChar c \<Longrightarrow> safeTail (c # cs) = safeFrom [] cs"
  by (simp add: safeTail_Cons)

lemma userCodeStr_safe:
  assumes "generateGetOutputCoords getCoordsDataType outputShape' shape = Inr getOutputCoordsStr"
    and "getCoordsDataType (length shape) = Inr dtype"
    and "safeFrom [] dtype"
  shows "safeFrom [] (userCodeStr convInfo outputShape'' getOutputCoordsStr)"
proof -
  have goc: "getOutputCoordsStr =
         ''\<newline>'' @
         ''        '' @ dtype @ '' getOutputCoords() {\<newline>'' @
         ''          '' @
         concat (map (\<lambda>i. groupStr outputShape' i (dispatchArrangement ! i))
                      [0..<length dispatchArrangement]) @ ''\<newline>'' @
         ''\<newline>'' @
         ''          return '' @ dtype @ ''('' @ join (map (\<lambda>i. ''d'' @ showNat i) [0..<length shape]) @ '');\<newline>'' @
         ''        }\<newline>'' @
         ''      ''"
    using assms(1,2) by (simp add: generateGetOutputCoords_def Let_def)
  show ?thesis
    unfolding goc gatherDimensionsStr_eq userCodeStr_def Let_def
    using assms(3)
    by (simp add: safeFrom_identChar safeFrom_sepChar safeTail_identChar safeTail_sepChar safeFrom_Nil safeTail_Nil
        safeFrom_showInt safeTail_showInt safeFrom_showNum safeTail_showNum
        safeFrom_join_showInt safeFrom_join_dimensions' safeFrom_separated[where a = dtype]
        isIdentChar_letters isIdentChar_separators padStride_def)
qed

section \<open>Independence of the bound uniforms\<close>

lemma getValue_env:
  "buf_x env' = buf_x env \<Longrightarrow>
     getValue convInfo env' batch xR xC d = getValue convInfo env batch xR xC d"
  by (simp add: getValue_def)

lemma colLoop_env_Some:
  assumes "colLoop convInfo env batch d xR xCCorner wC m = Some r"
  shows "\<forall>env'. buf_x env' = buf_x env \<longrightarrow>
           colLoop convInfo env' batch d xR xCCorner wC m = Some r"
proof (rule colLoop.raw_induct[where P = "\<lambda>convInfo env batch d xR xCCorner wC m r.
    \<forall>env'. buf_x env' = buf_x env \<longrightarrow>
      colLoop convInfo env' batch d xR xCCorner wC m = Some r", OF _ assms], goal_cases)
  case (1 colLoop' convInfo env batch d xR xCCorner wC m r)
  show ?case
  proof (intro allI impI)
    fix env' :: shader_env
    assume same: "buf_x env' = buf_x env"
    show "colLoop convInfo env' batch d xR xCCorner wC m = Some r"
    proof (cases "wC < effectiveFilterWidth convInfo")
      case True
      then have "colLoop' convInfo env batch d xR xCCorner (wC + dilationWidth convInfo)
          (max (getValue convInfo env batch xR (xCCorner + wC * dilationWidth convInfo) d) m) = Some r"
        using 1(2) by (simp add: Let_def)
      from 1(1)[OF this, rule_format, OF same]
      have "colLoop convInfo env' batch d xR xCCorner (wC + dilationWidth convInfo)
          (max (getValue convInfo env' batch xR (xCCorner + wC * dilationWidth convInfo) d) m) = Some r"
        by (simp only: getValue_env[OF same])
      then show ?thesis
        by (subst colLoop.simps) (simp only: True if_True Let_def)
    next
      case False
      then have "Some m = Some r"
        using 1(2) by simp
      then show ?thesis
        by (subst colLoop.simps) (simp only: False if_False)
    qed
  qed
qed

lemma colLoop_env:
  assumes "buf_x env' = buf_x env"
  shows "colLoop convInfo env' batch d xR xCCorner wC m = colLoop convInfo env batch d xR xCCorner wC m"
proof (cases "colLoop convInfo env batch d xR xCCorner wC m")
  case (Some r)
  show ?thesis
    unfolding Some colLoop_env_Some[OF Some, rule_format, OF assms] ..
next
  case None
  show ?thesis
  proof (cases "colLoop convInfo env' batch d xR xCCorner wC m")
    case (Some r)
    have "colLoop convInfo env batch d xR xCCorner wC m = Some r"
      by (rule colLoop_env_Some[OF Some, rule_format]) (simp only: assms)
    then show ?thesis using None by simp
  next
    case None': None
    show ?thesis using None None' by simp
  qed
qed

lemma rowLoop_env_Some:
  assumes "rowLoop convInfo env batch d xRCorner xCCorner wR m = Some r"
  shows "\<forall>env'. buf_x env' = buf_x env \<longrightarrow>
           rowLoop convInfo env' batch d xRCorner xCCorner wR m = Some r"
proof (rule rowLoop.raw_induct[where P = "\<lambda>convInfo env batch d xRCorner xCCorner wR m r.
    \<forall>env'. buf_x env' = buf_x env \<longrightarrow>
      rowLoop convInfo env' batch d xRCorner xCCorner wR m = Some r", OF _ assms], goal_cases)
  case (1 rowLoop' convInfo env batch d xRCorner xCCorner wR m r)
  show ?case
  proof (intro allI impI)
    fix env' :: shader_env
    assume same: "buf_x env' = buf_x env"
    show "rowLoop convInfo env' batch d xRCorner xCCorner wR m = Some r"
    proof (cases "wR < effectiveFilterHeight convInfo")
      case inside: True
      show ?thesis
      proof (cases "xRCorner + wR < 0 \<or> xRCorner + wR \<ge> inHeight convInfo")
        case True
        then have "rowLoop' convInfo env batch d xRCorner xCCorner (wR + dilationHeight convInfo) m = Some r"
          using 1(2) inside by (simp add: Let_def)
        from 1(1)[OF this, rule_format, OF same]
        show ?thesis
          unfolding rowLoop_skip[OF inside True] .
      next
        case False
        then have "Option.bind (colLoop convInfo env batch d (xRCorner + wR) xCCorner 0 m)
            (rowLoop' convInfo env batch d xRCorner xCCorner (wR + dilationHeight convInfo)) = Some r"
          using 1(2) inside by (simp add: Let_def)
        then obtain m' where col: "colLoop convInfo env batch d (xRCorner + wR) xCCorner 0 m = Some m'"
          and row: "rowLoop' convInfo env batch d xRCorner xCCorner (wR + dilationHeight convInfo) m' = Some r"
          by (auto simp add: bind_eq_Some_conv)
        from 1(1)[OF row, rule_format, OF same]
        show ?thesis
          unfolding rowLoop_visit[OF inside False] colLoop_env[OF same] col by simp
      qed
    next
      case False
      then show ?thesis
        using 1(2) by (simp add: rowLoop_done)
    qed
  qed
qed

lemma rowLoop_env:
  assumes "buf_x env' = buf_x env"
  shows "rowLoop convInfo env' batch d xRCorner xCCorner wR m
       = rowLoop convInfo env batch d xRCorner xCCorner wR m"
proof (cases "rowLoop convInfo env batch d xRCorner xCCorner wR m")
  case (Some r)
  show ?thesis
    unfolding Some rowLoop_env_Some[OF Some, rule_format, OF assms] ..
next
  case None
  show ?thesis
  proof (cases "rowLoop convInfo env' batch d xRCorner xCCorner wR m")
    case (Some r)
    have "rowLoop convInfo env batch d xRCorner xCCorner wR m = Some r"
      by (rule rowLoop_env_Some[OF Some, rule_format]) (simp only: assms)
    then show ?thesis using None by simp
  next
    case None': None
    show ?thesis using None None' by simp
  qed
qed

lemma main_env:
  assumes "buf_x env' = buf_x env"
    and "gl_GlobalInvocationID env' = gl_GlobalInvocationID env"
  shows "main convInfo env' = main convInfo env"
  unfolding main_def Let_def rowLoop_env[OF assms(1)] assms(2) ..

lemma identifiers_padStride:
  "safeFrom [] s = (''pad'' \<notin> set (identifiers s) \<and> ''stride'' \<notin> set (identifiers s))"
  by (auto simp add: safeFrom_def identifiers_def padStride_def)

lemma MaxPoolProgram_userCode:
  assumes "MaxPoolProgram getCoordsDataType convInfo = Inr p"
  shows "\<exists>getOutputCoordsStr.
           generateGetOutputCoords getCoordsDataType (outShape convInfo) (outShape convInfo)
             = Inr getOutputCoordsStr
           \<and> userCode p = userCodeStr convInfo (outShape convInfo) getOutputCoordsStr"
  using assms by (auto simp add: MaxPoolProgram_def Let_def split: sum.splits)

lemma identifiers_uniforms:
  "identifiers init_uniforms = [''uvec4'', ''inpShape'', ''outShape'', ''uvec2'', ''pad'', ''stride'']"
  by (simp add: identifiers_def init_uniforms_def isIdentChar_letters isIdentChar_separators)

text \<open>
  Claim C10 (the shader is independent of the uniforms \<^verbatim>\<open>pad\<close> and \<^verbatim>\<open>stride\<close>). For
  every geometry of safe integers for which the data-type helper returns a type name that
  does not contain the identifiers \<^verbatim>\<open>pad\<close> and \<^verbatim>\<open>stride\<close>, the constructor returns a
  program that declares the two uniforms and whose text is the template with the numbers
  of the geometry printed into it as literals: the strides, the paddings, the input
  width and height, the input shape, the output shape, the effective filter sizes and
  the dilations. No identifier of that text is \<^verbatim>\<open>pad\<close> or \<^verbatim>\<open>stride\<close>. Hence a
  semantics of shader texts that reads the values bound to names only at the identifiers
  of the text gives this text the same meaning under any values bound to the two
  uniforms; and so does the reading of the text as the function \<open>main\<close>, for one
  invocation and for the whole grid.
\<close>

theorem pad_stride_uniforms_unused:
  assumes "getCoordsDataType (length (outShape convInfo)) = Inr dtype"
    and "''pad'' \<notin> set (identifiers dtype)" and "''stride'' \<notin> set (identifiers dtype)"
    and "safeGeometry convInfo"
    and "\<forall>shader bound bound'. (\<forall>name \<in> set (identifiers shader). bound name = bound' name)
           \<longrightarrow> sem shader bound = sem shader bound'"
  shows "\<exists>p. MaxPoolProgram getCoordsDataType convInfo = Inr p
       \<and> ''pad'' \<in> set (identifiers (uniforms p)) \<and> ''stride'' \<in> set (identifiers (uniforms p))
       \<and> userCode p =
      ''\<newline>'' @
      ''      const ivec2 strides = ivec2('' @ showInt (strideHeight convInfo) @ '', '' @
        showInt (strideWidth convInfo) @ '');\<newline>'' @
      ''      const ivec2 pads = ivec2('' @ showInt (pad_top (padInfo convInfo)) @ '', '' @
        showInt (pad_left (padInfo convInfo)) @ '');\<newline>'' @
      ''      float initializationValue = 0.0;\<newline>'' @
      ''\<newline>'' @
      ''      float getValue(int batch, int xR, int xC, int d) {\<newline>'' @
      ''        if (xC < 0 || xC >= '' @ showInt (inWidth convInfo) @ '') {\<newline>'' @
      ''          return initializationValue;\<newline>'' @
      ''        }\<newline>'' @
      ''        return x[getFlatIndex(ivec4(batch, xR, xC, d), '' @
        (''ivec4('' @ join (map showInt (inShape convInfo)) @ '')'') @ '')];\<newline>'' @
      ''      }\<newline>'' @
      ''\<newline>'' @
      ''      '' @
        (''\<newline>'' @
         ''        '' @ dtype @ '' getOutputCoords() {\<newline>'' @
         ''          '' @
          (''uint d1 = gl_GlobalInvocationID.x;'' @
           ''uint d2 = gl_GlobalInvocationID.y;'' @
           ''uint index2 = \<newline>'' @
           ''            gl_GlobalInvocationID.z;'' @
           ''\<newline>'' @
           ''              uint d0 = index2 / '' @ showNum (js_index (outShape convInfo) 3) @ '';\<newline>'' @
           ''            '' @
           ''\<newline>'' @
           ''                uint d3 = index2 - d0 * '' @ showNum (js_index (outShape convInfo) 3) @ '';\<newline>'' @
           ''              '') @ ''\<newline>'' @
         ''\<newline>'' @
         ''          return '' @ dtype @ ''('' @
           join (map (\<lambda>i. ''d'' @ showNat i) [0..<length (outShape convInfo)]) @ '');\<newline>'' @
         ''        }\<newline>'' @
         ''      '') @ ''\<newline>'' @
      ''\<newline>'' @
      ''      void main() {\<newline>'' @
      ''        ivec4 coords = getOutputCoords();\<newline>'' @
      ''        int batch = coords[0];\<newline>'' @
      ''        int d = coords[3];\<newline>'' @
      ''        uint index = getFlatIndex(coords, ivec4(\<newline>'' @
      ''          '' @ showNum (js_index (outShape convInfo) 0) @ '', \<newline>'' @
      ''          '' @ showNum (js_index (outShape convInfo) 1) @ '', \<newline>'' @
      ''          '' @ showNum (js_index (outShape convInfo) 2) @ '', \<newline>'' @
      ''          '' @ showNum (js_index (outShape convInfo) 3) @ ''));\<newline>'' @
      ''\<newline>'' @
      ''        ivec2 xRCCorner = coords.yz * strides - pads;\<newline>'' @
      ''        int xRCorner = xRCCorner.x;\<newline>'' @
      ''        int xCCorner = xRCCorner.y;\<newline>'' @
      ''\<newline>'' @
      ''        float minMaxValue = 0.0;\<newline>'' @
      ''\<newline>'' @
      ''        for(int wR=0; wR<'' @ showInt (effectiveFilterHeight convInfo) @ ''; wR += '' @
        showInt (dilationHeight convInfo) @ '') {\<newline>'' @
      ''          int xR = xRCorner + wR;\<newline>'' @
      ''\<newline>'' @
      ''          if (xR < 0 || xR >= '' @ showInt (inHeight convInfo) @ '') {\<newline>'' @
      ''            continue;\<newline>'' @
      ''          }\<newline>'' @
      ''\<newline>'' @
      ''          for(int wC=0; wC<'' @ showInt (effectiveFilterWidth convInfo) @ ''; wC += '' @
        showInt (dilationWidth convInfo) @ '') {\<newline>'' @
      ''            int xC = xCCorner + wC * '' @ showInt (dilationWidth convInfo) @ '';\<newline>'' @
      ''\<newline>'' @
      ''            float value = getValue(batch, xR, xC, d);\<newline>'' @
      ''\<newline>'' @
      ''            minMaxValue = max(value, minMaxValue);\<newline>'' @
      ''          }\<newline>'' @
      ''        }\<newline>'' @
      ''\<newline>'' @
      ''        setOutput(index, minMaxValue);\<newline>'' @
      ''      }\<newline>'' @
      ''    ''
       \<and> ''pad'' \<notin> set (identifiers (userCode p)) \<and> ''stride'' \<notin> set (identifiers (userCode p))
       \<and> sem (userCode p) (bound(''pad'' := u, ''stride'' := v)) = sem (userCode p) bound
       \<and> main convInfo (env\<lparr>u_pad := a, u_stride := b\<rparr>) = main convInfo env
       \<and> runProgram convInfo p (env\<lparr>u_pad := a, u_stride := b\<rparr>) = runProgram convInfo p env"
proof -
  obtain p where p: "MaxPoolProgram getCoordsDataType convInfo = Inr p"
    using MaxPoolProgram_succeeds[of getCoordsDataType convInfo dtype] assms(1) by blast
  obtain goc where goc: "generateGetOutputCoords getCoordsDataType (outShape convInfo) (outShape convInfo)
             = Inr goc"
    and code: "userCode p = userCodeStr convInfo (outShape convInfo) goc"
    using MaxPoolProgram_userCode[OF p] by blast
  have "safeFrom [] dtype"
    using assms(2,3) by (simp add: identifiers_padStride)
  then have "safeFrom [] (userCode p)"
    unfolding code by (rule userCodeStr_safe[OF goc assms(1)])
  then have body: "''pad'' \<notin> set (identifiers (userCode p))" "''stride'' \<notin> set (identifiers (userCode p))"
    by (simp_all add: identifiers_padStride)
  have "uniforms p = init_uniforms"
    using p by (auto simp add: MaxPoolProgram_def Let_def split: sum.splits)
  then have decl: "''pad'' \<in> set (identifiers (uniforms p))" "''stride'' \<in> set (identifiers (uniforms p))"
    by (simp_all add: identifiers_uniforms)
  have goc_eq: "goc = ''\<newline>'' @
         ''        '' @ dtype @ '' getOutputCoords() {\<newline>'' @
         ''          '' @
          concat (map (\<lambda>i. groupStr (outShape convInfo) i (dispatchArrangement ! i))
                      [0..<length dispatchArrangement]) @ ''\<newline>'' @
         ''\<newline>'' @
         ''          return '' @ dtype @ ''('' @
           join (map (\<lambda>i. ''d'' @ showNat i) [0..<length (outShape convInfo)]) @ '');\<newline>'' @
         ''        }\<newline>'' @
         ''      ''"
    using goc unfolding generateGetOutputCoords_def assms(1) Let_def by simp
  have whole: "userCode p =
      ''\<newline>'' @
      ''      const ivec2 strides = ivec2('' @ showInt (strideHeight convInfo) @ '', '' @
        showInt (strideWidth convInfo) @ '');\<newline>'' @
      ''      const ivec2 pads = ivec2('' @ showInt (pad_top (padInfo convInfo)) @ '', '' @
        showInt (pad_left (padInfo convInfo)) @ '');\<newline>'' @
      ''      float initializationValue = 0.0;\<newline>'' @
      ''\<newline>'' @
      ''      float getValue(int batch, int xR, int xC, int d) {\<newline>'' @
      ''        if (xC < 0 || xC >= '' @ showInt (inWidth convInfo) @ '') {\<newline>'' @
      ''          return initializationValue;\<newline>'' @
      ''        }\<newline>'' @
      ''        return x[getFlatIndex(ivec4(batch, xR, xC, d), '' @
        (''ivec4('' @ join (map showInt (inShape convInfo)) @ '')'') @ '')];\<newline>'' @
      ''      }\<newline>'' @
      ''\<newline>'' @
      ''      '' @
        (''\<newline>'' @
         ''        '' @ dtype @ '' getOutputCoords() {\<newline>'' @
         ''          '' @
          (''uint d1 = gl_GlobalInvocationID.x;'' @
           ''uint d2 = gl_GlobalInvocationID.y;'' @
           ''uint index2 = \<newline>'' @
           ''            gl_GlobalInvocationID.z;'' @
           ''\<newline>'' @
           ''              uint d0 = index2 / '' @ showNum (js_index (outShape convInfo) 3) @ '';\<newline>'' @
           ''            '' @
           ''\<newline>'' @
           ''                uint d3 = index2 - d0 * '' @ showNum (js_index (outShape convInfo) 3) @ '';\<newline>'' @
           ''              '') @ ''\<newline>'' @
         ''\<newline>'' @
         ''          return '' @ dtype @ ''('' @
           join (map (\<lambda>i. ''d'' @ showNat i) [0..<length (outShape convInfo)]) @ '');\<newline>'' @
         ''        }\<newline>'' @
         ''      '') @ ''\<newline>'' @
      ''\<newline>'' @
      ''      void main() {\<newline>'' @
      ''        ivec4 coords = getOutputCoords();\<newline>'' @
      ''        int batch = coords[0];\<newline>'' @
      ''        int d = coords[3];\<newline>'' @
      ''        uint index = getFlatIndex(coords, ivec4(\<newline>'' @
      ''          '' @ showNum (js_index (outShape convInfo) 0) @ '', \<newline>'' @
      ''          '' @ showNum (js_index (outShape convInfo) 1) @ '', \<newline>'' @
      ''          '' @ showNum (js_index (outShape convInfo) 2) @ '', \<newline>'' @
      ''          '' @ showNum (js_index (outShape convInfo) 3) @ ''));\<newline>'' @
      ''\<newline>'' @
      ''        ivec2 xRCCorner = coords.yz * strides - pads;\<newline>'' @
      ''        int xRCorner = xRCCorner.x;\<newline>'' @
      ''        int xCCorner = xRCCorner.y;\<newline>'' @
      ''\<newline>'' @
      ''        float minMaxValue = 0.0;\<newline>'' @
      ''\<newline>'' @
      ''        for(int wR=0; wR<'' @ showInt (effectiveFilterHeight convInfo) @ ''; wR += '' @
        showInt (dilationHeight convInfo) @ '') {\<newline>'' @
      ''          int xR = xRCorner + wR;\<newline>'' @
      ''\<newline>'' @
      ''          if (xR < 0 || xR >= '' @ showInt (inHeight convInfo) @ '') {\<newline>'' @
      ''            continue;\<newline>'' @
      ''          }\<newline>'' @
      ''\<newline>'' @
      ''          for(int wC=0; wC<'' @ showInt (effectiveFilterWidth convInfo) @ ''; wC += '' @
        showInt (dilationWidth convInfo) @ '') {\<newline>'' @
      ''            int xC = xCCorner + wC * '' @ showInt (dilationWidth convInfo) @ '';\<newline>'' @
      ''\<newline>'' @
      ''            float value = getValue(batch, xR, xC, d);\<newline>'' @
      ''\<newline>'' @
      ''            minMaxValue = max(value, minMaxValue);\<newline>'' @
      ''          }\<newline>'' @
      ''        }\<newline>'' @
      ''\<newline>'' @
      ''        setOutput(index, minMaxValue);\<newline>'' @
      ''      }\<newline>'' @
      ''    ''"
    unfolding code goc_eq userCodeStr_def Let_def gatherDimensionsStr_eq by simp
  have "\<forall>name \<in> set (identifiers (userCode p)).
          (bound(''pad'' := u, ''stride'' := v)) name = bound name"
    using body by auto
  then have sem: "sem (userCode p) (bound(''pad'' := u, ''stride'' := v)) = sem (userCode p) bound"
    using assms(5) by blast
  have run_main: "main convInfo (env\<lparr>u_pad := a, u_stride := b\<rparr>) = main convInfo env"
    by (rule main_env) simp_all
  have run: "runProgram convInfo p (env\<lparr>u_pad := a, u_stride := b\<rparr>) = runProgram convInfo p env"
    unfolding runProgram_def
    by (rule map_cong[OF refl]) (rule main_env, simp_all)
  show ?thesis
    using p decl whole body sem run_main run by blast
qed

theorem pad_stride_uniforms_unused_witness:
  "\<exists>p. MaxPoolProgram ivecDataType scenarioGeometry = Inr p
       \<and> ''pad'' \<in> set (identifiers (uniforms p)) \<and> ''stride'' \<in> set (identifiers (uniforms p))
       \<and> userCode p =
       ''\<newline>'' @
       ''      const ivec2 strides = ivec2(2, 2);\<newline>'' @
       ''      const ivec2 pads = ivec2(0, 0);\<newline>'' @
       ''      float initializationValue = 0.0;\<newline>'' @
       ''\<newline>'' @
       ''      float getValue(int batch, int xR, int xC, int d) {\<newline>'' @
       ''        if (xC < 0 || xC >= 4) {\<newline>'' @
       ''          return initializationValue;\<newline>'' @
       ''        }\<newline>'' @
       ''        return x[getFlatIndex(ivec4(batch, xR, xC, d), ivec4(1,4,4,1))];\<newline>'' @
       ''      }\<newline>'' @
       ''\<newline>'' @
       ''      \<newline>'' @
       ''        ivec4 getOutputCoords() {\<newline>'' @
       ''          uint d1 = gl_GlobalInvocationID.x;uint d2 = gl_GlobalInvocationID.y;uint index2 = \<newline>'' @
       ''            gl_GlobalInvocationID.z;\<newline>'' @
       ''              uint d0 = index2 / 1;\<newline>'' @
       ''            \<newline>'' @
       ''                uint d3 = index2 - d0 * 1;\<newline>'' @
       ''              \<newline>'' @
       ''\<newline>'' @
       ''          return ivec4(d0,d1,d2,d3);\<newline>'' @
       ''        }\<newline>'' @
       ''      \<newline>'' @
       ''\<newline>'' @
       ''      void main() {\<newline>'' @
       ''        ivec4 coords = getOutputCoords();\<newline>'' @
       ''        int batch = coords[0];\<newline>'' @
       ''        int d = coords[3];\<newline>'' @
       ''        uint index = getFlatIndex(coords, ivec4(\<newline>'' @
       ''          1, \<newline>'' @
       ''          2, \<newline>'' @
       ''          2, \<newline>'' @
       ''          1));\<newline>'' @
       ''\<newline>'' @
       ''        ivec2 xRCCorner = coords.yz * strides - pads;\<newline>'' @
       ''        int xRCorner = xRCCorner.x;\<newline>'' @
       ''        int xCCorner = xRCCorner.y;\<newline>'' @
       ''\<newline>'' @
       ''        float minMaxValue = 0.0;\<newline>'' @
       ''\<newline>'' @
       ''        for(int wR=0; wR<2; wR += 1) {\<newline>'' @
       ''          int xR = xRCorner + wR;\<newline>'' @
       ''\<newline>'' @
       ''          if (xR < 0 || xR >= 4) {\<newline>'' @
       ''            continue;\<newline>'' @
       ''          }\<newline>'' @
       ''\<newline>'' @
       ''          for(int wC=0; wC<2; wC += 1) {\<newline>'' @
       ''            int xC = xCCorner + wC * 1;\<newline>'' @
       ''\<newline>'' @
       ''            float value = getValue(batch, xR, xC, d);\<newline>'' @
       ''\<newline>'' @
       ''            minMaxValue = max(value, minMaxValue);\<newline>'' @
       ''          }\<newline>'' @
       ''        }\<newline>'' @
       ''\<newline>'' @
       ''        setOutput(index, minMaxValue);\<newline>'' @
       ''      }\<newline>'' @
       ''    ''
       \<and> ''pad'' \<notin> set (identifiers (userCode p)) \<and> ''stride'' \<notin> set (identifiers (userCode p))
       \<and> map (length(''pad'' := 7, ''stride'' := 9)) (identifiers (userCode p))
           = map length (identifiers (userCode p))
       \<and> main scenarioGeometry
            (envOf [1, 2, 3, 4, 5, 6, 7, 8, 9, 10, 11, 12, 13, 14, 15, 16] (1, 1, 0)
               \<lparr>u_pad := (7, 7), u_stride := (9, 9)\<rparr>)
          = main scenarioGeometry
              (envOf [1, 2, 3, 4, 5, 6, 7, 8, 9, 10, 11, 12, 13, 14, 15, 16] (1, 1, 0))"
proof -
  have dtype: "ivecDataType (length (outShape scenarioGeometry)) = Inr ''ivec4''"
    by (rule ivecDataType_length) (simp add: scenarioGeometry_def)
  have clean: "''pad'' \<notin> set (identifiers ''ivec4'')" "''stride'' \<notin> set (identifiers ''ivec4'')"
    by (simp_all add: identifiers_def isIdentChar_letters)
  have safe: "safeGeometry scenarioGeometry"
    by (simp add: safeGeometry_def scenarioGeometry_def isSafeInteger_def)
  have local: "\<forall>shader (bound :: string \<Rightarrow> nat) bound'.
      (\<forall>name \<in> set (identifiers shader). bound name = bound' name)
        \<longrightarrow> map bound (identifiers shader) = map bound' (identifiers shader)"
    by simp
  have four: "showInt 4 = ''4''"
    by (simp add: showInt_def showNat.simps digitChar_def)
  have dims: "map (\<lambda>i. ''d'' @ showNat i) [0..<length (outShape scenarioGeometry)]
      = [''d0'', ''d1'', ''d2'', ''d3'']"
    by (simp add: scenarioGeometry_def upt_rec showNat.simps digitChar_def)
  have shape: "js_index (outShape scenarioGeometry) 0 = Num 1" "js_index (outShape scenarioGeometry) 1 = Num 2"
    "js_index (outShape scenarioGeometry) 2 = Num 2" "js_index (outShape scenarioGeometry) 3 = Num 1"
    by (simp_all add: scenarioGeometry_def js_index_def)
  from pad_stride_uniforms_unused[where getCoordsDataType = ivecDataType
        and convInfo = scenarioGeometry and dtype = "''ivec4''"
        and sem = "\<lambda>shader bound. map bound (identifiers shader)"
        and bound = length and u = 7 and v = 9
        and env = "envOf [1, 2, 3, 4, 5, 6, 7, 8, 9, 10, 11, 12, 13, 14, 15, 16] (1, 1, 0)"
        and a = "(7, 7)" and b = "(9, 9)", OF dtype clean safe local]
  show ?thesis
  proof (elim exE conjE, intro exI conjI)
    fix p
    assume "userCode p =
      ''\<newline>'' @
      ''      const ivec2 strides = ivec2('' @ showInt (strideHeight scenarioGeometry) @ '', '' @
        showInt (strideWidth scenarioGeometry) @ '');\<newline>'' @
      ''      const ivec2 pads = ivec2('' @ showInt (pad_top (padInfo scenarioGeometry)) @ '', '' @
        showInt (pad_left (padInfo scenarioGeometry)) @ '');\<newline>'' @
      ''      float initializationValue = 0.0;\<newline>'' @
      ''\<newline>'' @
      ''      float getValue(int batch, int xR, int xC, int d) {\<newline>'' @
      ''        if (xC < 0 || xC >= '' @ showInt (inWidth scenarioGeometry) @ '') {\<newline>'' @
      ''          return initializationValue;\<newline>'' @
      ''        }\<newline>'' @
      ''        return x[getFlatIndex(ivec4(batch, xR, xC, d), '' @ (''ivec4('' @ join (map showInt (inShape scenarioGeometry)) @ '')'') @ '')];\<newline>'' @
      ''      }\<newline>'' @
      ''\<newline>'' @
      ''      '' @ 
        (''\<newline>'' @
         ''        '' @ ''ivec4'' @ '' getOutputCoords() {\<newline>'' @
         ''          '' @
          (''uint d1 = gl_GlobalInvocationID.x;'' @
           ''uint d2 = gl_GlobalInvocationID.y;'' @
           ''uint index2 = \<newline>'' @
           ''            gl_GlobalInvocationID.z;'' @
           ''\<newline>'' @
           ''              uint d0 = index2 / '' @ showNum (js_index (outShape scenarioGeometry) 3) @ '';\<newline>'' @
           ''            '' @
           ''\<newline>'' @
           ''                uint d3 = index2 - d0 * '' @ showNum (js_index (outShape scenarioGeometry) 3) @ '';\<newline>'' @
           ''              '') @ ''\<newline>'' @
         ''\<newline>'' @
         ''          return '' @ ''ivec4'' @ ''('' @
           join (map (\<lambda>i. ''d'' @ showNat i) [0..<length (outShape scenarioGeometry)]) @ '');\<newline>'' @
         ''        }\<newline>'' @
         ''      '') @ ''\<newline>'' @
      ''\<newline>'' @
      ''      void main() {\<newline>'' @
      ''        ivec4 coords = getOutputCoords();\<newline>'' @
      ''        int batch = coords[0];\<newline>'' @
      ''        int d = coords[3];\<newline>'' @
      ''        uint index = getFlatIndex(coords, ivec4(\<newline>'' @
      ''          '' @ showNum (js_index (outShape scenarioGeometry) 0) @ '', \<newline>'' @
      ''          '' @ showNum (js_index (outShape scenarioGeometry) 1) @ '', \<newline>'' @
      ''          '' @ showNum (js_index (outShape scenarioGeometry) 2) @ '', \<newline>'' @
      ''          '' @ showNum (js_index (outShape scenarioGeometry) 3) @ ''));\<newline>'' @
      ''\<newline>'' @
      ''        ivec2 xRCCorner = coords.yz * strides - pads;\<newline>'' @
      ''        int xRCorner = xRCCorner.x;\<newline>'' @
      ''        int xCCorner = xRCCorner.y;\<newline>'' @
      ''\<newline>'' @
      ''        float minMaxValue = 0.0;\<newline>'' @
      ''\<newline>'' @
      ''        for(int wR=0; wR<'' @ showInt (effectiveFilterHeight scenarioGeometry) @ ''; wR += '' @
        showInt (dilationHeight scenarioGeometry) @ '') {\<newline>'' @
      ''          int xR = xRCorner + wR;\<newline>'' @
      ''\<newline>'' @
      ''          if (xR < 0 || xR >= '' @ showInt (inHeight scenarioGeometry) @ '') {\<newline>'' @
      ''            continue;\<newline>'' @
      ''          }\<newline>'' @
      ''\<newline>'' @
      ''          for(int wC=0; wC<'' @ showInt (effectiveFilterWidth scenarioGeometry) @ ''; wC += '' @
        showInt (dilationWidth scenarioGeometry) @ '') {\<newline>'' @
      ''            int xC = xCCorner + wC * '' @ showInt (dilationWidth scenarioGeometry) @ '';\<newline>'' @
      ''\<newline>'' @
      ''            float value = getValue(batch, xR, xC, d);\<newline>'' @
      ''\<newline>'' @
      ''            minMaxValue = max(value, minMaxValue);\<newline>'' @
      ''          }\<newline>'' @
      ''        }\<newline>'' @
      ''\<newline>'' @
      ''        setOutput(index, minMaxValue);\<newline>'' @
      ''      }\<newline>'' @
      ''    ''"
    then show "userCode p =
       ''\<newline>'' @
       ''      const ivec2 strides = ivec2(2, 2);\<newline>'' @
       ''      const ivec2 pads = ivec2(0, 0);\<newline>'' @
       ''      float initializationValue = 0.0;\<newline>'' @
       ''\<newline>'' @
       ''      float getValue(int batch, int xR, int xC, int d) {\<newline>'' @
       ''        if (xC < 0 || xC >= 4) {\<newline>'' @
       ''          return initializationValue;\<newline>'' @
       ''        }\<newline>'' @
       ''        return x[getFlatIndex(ivec4(batch, xR, xC, d), ivec4(1,4,4,1))];\<newline>'' @
       ''      }\<newline>'' @
       ''\<newline>'' @
       ''      \<newline>'' @
       ''        ivec4 getOutputCoords() {\<newline>'' @
       ''          uint d1 = gl_GlobalInvocationID.x;uint d2 = gl_GlobalInvocationID.y;uint index2 = \<newline>'' @
       ''            gl_GlobalInvocationID.z;\<newline>'' @
       ''              uint d0 = index2 / 1;\<newline>'' @
       ''            \<newline>'' @
       ''                uint d3 = index2 - d0 * 1;\<newline>'' @
       ''              \<newline>'' @
       ''\<newline>'' @
       ''          return ivec4(d0,d1,d2,d3);\<newline>'' @
       ''        }\<newline>'' @
       ''      \<newline>'' @
       ''\<newline>'' @
       ''      void main() {\<newline>'' @
       ''        ivec4 coords = getOutputCoords();\<newline>'' @
       ''        int batch = coords[0];\<newline>'' @
       ''        int d = coords[3];\<newline>'' @
       ''        uint index = getFlatIndex(coords, ivec4(\<newline>'' @
       ''          1, \<newline>'' @
       ''          2, \<newline>'' @
       ''          2, \<newline>'' @
       ''          1));\<newline>'' @
       ''\<newline>'' @
       ''        ivec2 xRCCorner = coords.yz * strides - pads;\<newline>'' @
       ''        int xRCorner = xRCCorner.x;\<newline>'' @
       ''        int xCCorner = xRCCorner.y;\<newline>'' @
       ''\<newline>'' @
       ''        float minMaxValue = 0.0;\<newline>'' @
       ''\<newline>'' @
       ''        for(int wR=0; wR<2; wR += 1) {\<newline>'' @
       ''          int xR = xRCorner + wR;\<newline>'' @
       ''\<newline>'' @
       ''          if (xR < 0 || xR >= 4) {\<newline>'' @
       ''            continue;\<newline>'' @
       ''          }\<newline>'' @
       ''\<newline>'' @
       ''          for(int wC=0; wC<2; wC += 1) {\<newline>'' @
       ''            int xC = xCCorner + wC * 1;\<newline>'' @
       ''\<newline>'' @
       ''            float value = getValue(batch, xR, xC, d);\<newline>'' @
       ''\<newline>'' @
       ''            minMaxValue = max(value, minMaxValue);\<newline>'' @
       ''          }\<newline>'' @
       ''        }\<newline>'' @
       ''\<newline>'' @
       ''        setOutput(index, minMaxValue);\<newline>'' @
       ''      }\<newline>'' @
       ''    ''"
      unfolding dims shape by (simp add: scenarioGeometry_def showInt_small four)
  qed assumption+
qed

section \<open>The grid of invocations\<close>

text \<open>
  The invocation ids of a program built for an output shape of four entries, and the
  arithmetic of the flat index: a flat index is a number in mixed radix, whose digits
  are the coordinates.
\<close>

lemma invocationIds_rank4:
  assumes "MaxPoolProgram g convInfo = Inr p" and "outShape convInfo = [s0, s1, s2, s3]"
    and "isSafeInteger s0" and "isSafeInteger s1" and "isSafeInteger s2"
    and "isSafeInteger (s0 * s3)"
  shows "set (invocationIds p)
           = {(gx, gy, gz). gx < nat (\<lceil>real_of_int s1 / 2\<rceil> * 2)
                \<and> gy < nat (\<lceil>real_of_int s2 / 2\<rceil> * 2) \<and> gz < nat (s0 * s3)}"
    and "distinct (invocationIds p)"
proof -
  have dp: "dispatch p = (Num \<lceil>real_of_int s1 / 2\<rceil>, Num \<lceil>real_of_int s2 / 2\<rceil>, Num (s0 * s3))"
    using MaxPoolProgram_fields(5)[OF assms(1)] assms(2)
    by (simp add: computeDispatch_rank4[OF assms(3-6)])
  note tp = MaxPoolProgram_fields(4)[OF assms(1)]
  show "set (invocationIds p)
           = {(gx, gy, gz). gx < nat (\<lceil>real_of_int s1 / 2\<rceil> * 2)
                \<and> gy < nat (\<lceil>real_of_int s2 / 2\<rceil> * 2) \<and> gz < nat (s0 * s3)}"
    unfolding invocationIds_def dp tp by auto
  show "distinct (invocationIds p)"
    unfolding invocationIds_def dp tp by (simp add: distinct_product)
qed

lemma radix_unique:
  fixes a a' c c' s :: int
  assumes "0 \<le> c" "c < s" "0 \<le> c'" "c' < s" and "a * s + c = a' * s + c'"
  shows "a = a' \<and> c = c'"
proof -
  have "(a * s + c) div s = a" "(a' * s + c') div s = a'"
    using assms(1-4) by (simp_all add: div_pos_pos_trivial)
  then have "a = a'"
    using assms(5) by simp
  then show ?thesis
    using assms(5) by simp
qed

lemma radix_bound:
  fixes a c s n :: int
  assumes "0 \<le> a" "a < n" "0 \<le> c" "c < s"
  shows "0 \<le> a * s + c" and "a * s + c < n * s"
proof -
  have s: "0 < s" using assms(3,4) by simp
  show "0 \<le> a * s + c"
    using assms(1,3) s by simp
  have "a + 1 \<le> n" using assms(2) by simp
  then have "(a + 1) * s \<le> n * s"
    using s by (intro mult_right_mono) simp_all
  then show "a * s + c < n * s"
    using assms(4) by (simp add: algebra_simps)
qed

lemma getFlatIndex_nested:
  "getFlatIndex (c0, c1, c2, c3) (s0, s1, s2, s3) = ((c0 * s1 + c1) * s2 + c2) * s3 + c3"
  by (simp add: algebra_simps)

lemma runProgram_indices:
  assumes "length (inShape convInfo) = 4" and "outShape convInfo = [s0, s1, s2, s3]"
    and "0 < dilationHeight convInfo" and "0 < dilationWidth convInfo"
  shows "map (map_sum id fst) (runProgram convInfo p env)
     = map (\<lambda>(gx, gy, gz). Inr (getFlatIndex (int gz div s3, int gx, int gy, int gz - int gz div s3 * s3)
                                   (s0, s1, s2, s3)))
         (invocationIds p)"
  unfolding runProgram_def map_map
  by (rule map_cong[OF refl]) (auto simp add: main_index[OF assms])

lemma grid_index_unique:
  fixes gx gy gz gx' gy' gz' :: nat
  assumes pos: "0 < s1" "0 < s2" "0 < s3"
    and g: "int gx < s1" "int gy < s2" and g': "int gx' < s1" "int gy' < s2"
    and eq: "getFlatIndex (int gz div s3, int gx, int gy, int gz - int gz div s3 * s3) (s0, s1, s2, s3)
           = getFlatIndex (int gz' div s3, int gx', int gy', int gz' - int gz' div s3 * s3) (s0, s1, s2, s3)"
  shows "gx = gx' \<and> gy = gy' \<and> gz = gz'"
proof -
  have m: "int gz - int gz div s3 * s3 = int gz mod s3" "int gz' - int gz' div s3 * s3 = int gz' mod s3"
    by (simp_all add: minus_div_mult_eq_mod)
  have r: "0 \<le> int gz mod s3" "int gz mod s3 < s3" "0 \<le> int gz' mod s3" "int gz' mod s3 < s3"
    using pos(3) by simp_all
  from eq have e3: "((int gz div s3 * s1 + int gx) * s2 + int gy) * s3 + int gz mod s3
                  = ((int gz' div s3 * s1 + int gx') * s2 + int gy') * s3 + int gz' mod s3"
    unfolding getFlatIndex_nested m .
  from radix_unique[OF r e3]
  have e2: "(int gz div s3 * s1 + int gx) * s2 + int gy = (int gz' div s3 * s1 + int gx') * s2 + int gy'"
    and c3: "int gz mod s3 = int gz' mod s3" by simp_all
  from radix_unique[OF _ g(2) _ g'(2) e2]
  have e1: "int gz div s3 * s1 + int gx = int gz' div s3 * s1 + int gx'" and c2: "gy = gy'"
    by simp_all
  from radix_unique[OF _ g(1) _ g'(1) e1]
  have c0: "int gz div s3 = int gz' div s3" and c1: "gx = gx'"
    by simp_all
  have "int gz = int gz div s3 * s3 + int gz mod s3" "int gz' = int gz' div s3 * s3 + int gz' mod s3"
    by simp_all
  then have "int gz = int gz'"
    using c0 c3 by simp
  then show ?thesis
    using c1 c2 by simp
qed

lemma grid_index_in_range:
  fixes gx gy gz :: nat
  assumes pos: "0 < s0" "0 < s1" "0 < s2" "0 < s3"
    and g: "int gx < s1" "int gy < s2" "int gz < s0 * s3"
  shows "0 \<le> getFlatIndex (int gz div s3, int gx, int gy, int gz - int gz div s3 * s3) (s0, s1, s2, s3)"
    and "getFlatIndex (int gz div s3, int gx, int gy, int gz - int gz div s3 * s3) (s0, s1, s2, s3)
           < s0 * s1 * s2 * s3"
proof -
  have m: "int gz - int gz div s3 * s3 = int gz mod s3"
    by (simp add: minus_div_mult_eq_mod)
  have c3: "0 \<le> int gz mod s3" "int gz mod s3 < s3"
    using pos(4) by simp_all
  have c0: "0 \<le> int gz div s3" "int gz div s3 < s0"
    using pos(4) div_less_of_less_mult[OF pos(4) g(3)] by (simp_all add: pos_imp_zdiv_nonneg_iff)
  have a1: "0 \<le> int gz div s3 * s1 + int gx" "int gz div s3 * s1 + int gx < s0 * s1"
    using radix_bound[OF c0 _ g(1)] by simp_all
  have a2: "0 \<le> (int gz div s3 * s1 + int gx) * s2 + int gy"
    "(int gz div s3 * s1 + int gx) * s2 + int gy < s0 * s1 * s2"
    using radix_bound[OF a1 _ g(2)] by simp_all
  show "0 \<le> getFlatIndex (int gz div s3, int gx, int gy, int gz - int gz div s3 * s3) (s0, s1, s2, s3)"
    and "getFlatIndex (int gz div s3, int gx, int gy, int gz - int gz div s3 * s3) (s0, s1, s2, s3)
           < s0 * s1 * s2 * s3"
    unfolding getFlatIndex_nested m using radix_bound[OF a2 c3] by simp_all
qed

lemma grid_index_onto:
  assumes pos: "0 < s0" "0 < s1" "0 < s2" "0 < s3"
    and i: "0 \<le> i" "i < s0 * s1 * s2 * s3"
  shows "\<exists>gx gy gz :: nat. int gx < s1 \<and> int gy < s2 \<and> int gz < s0 * s3
           \<and> getFlatIndex (int gz div s3, int gx, int gy, int gz - int gz div s3 * s3) (s0, s1, s2, s3) = i"
proof -
  define c3 where "c3 = i mod s3"
  define q where "q = i div s3"
  define c2 where "c2 = q mod s2"
  define r where "r = q div s2"
  define c1 where "c1 = r mod s1"
  define c0 where "c0 = r div s1"
  have q: "0 \<le> q" "q < s0 * s1 * s2"
    using i pos(4) div_less_of_less_mult[OF pos(4), of i "s0 * s1 * s2"]
    by (simp_all add: q_def pos_imp_zdiv_nonneg_iff)
  have r: "0 \<le> r" "r < s0 * s1"
    using q pos(3) div_less_of_less_mult[OF pos(3), of q "s0 * s1"]
    by (simp_all add: r_def pos_imp_zdiv_nonneg_iff)
  have c0: "0 \<le> c0" "c0 < s0"
    using r pos(2) div_less_of_less_mult[OF pos(2), of r s0]
    by (simp_all add: c0_def pos_imp_zdiv_nonneg_iff)
  have c1: "0 \<le> c1" "c1 < s1" using pos(2) by (simp_all add: c1_def)
  have c2: "0 \<le> c2" "c2 < s2" using pos(3) by (simp_all add: c2_def)
  have c3: "0 \<le> c3" "c3 < s3" using pos(4) by (simp_all add: c3_def)
  have i_eq: "i = ((c0 * s1 + c1) * s2 + c2) * s3 + c3"
    by (simp add: c0_def c1_def c2_def c3_def r_def q_def)
  let ?z = "c0 * s3 + c3"
  have z: "0 \<le> ?z" "?z < s0 * s3"
    using radix_bound[OF c0 c3] by simp_all
  have zd: "?z div s3 = c0" and zm: "?z - ?z div s3 * s3 = c3"
    using c3 by (simp_all add: div_pos_pos_trivial)
  have "int (nat c1) < s1 \<and> int (nat c2) < s2 \<and> int (nat ?z) < s0 * s3
      \<and> getFlatIndex (int (nat ?z) div s3, int (nat c1), int (nat c2),
            int (nat ?z) - int (nat ?z) div s3 * s3) (s0, s1, s2, s3) = i"
    using c1 c2 z unfolding getFlatIndex_nested by (simp add: zd zm i_eq)
  then show ?thesis by blast
qed

lemma ceil_half_even: "even s \<Longrightarrow> \<lceil>real_of_int s / 2\<rceil> * 2 = s"
  by (auto elim!: evenE)

section \<open>Coverage of the output by the grid\<close>

text \<open>
  Coverage of the output. For a program built for a geometry whose output shape has four
  positive entries and whose dilations are positive, every flat index \<open>i\<close> of the output,
  \<open>0 \<le> i < s0 * s1 * s2 * s3\<close>, is written by an invocation of the dispatched grid.
\<close>

theorem every_output_index_written:
  assumes "MaxPoolProgram getCoordsDataType convInfo = Inr p"
    and "length (inShape convInfo) = 4" and "outShape convInfo = [s0, s1, s2, s3]"
    and "0 < s0" and "0 < s1" and "0 < s2" and "0 < s3"
    and "0 < dilationHeight convInfo" and "0 < dilationWidth convInfo"
    and "0 \<le> i" and "i < s0 * s1 * s2 * s3"
    and safe: "isSafeInteger s1" "isSafeInteger s2" "isSafeInteger (s0 * s3)"
  shows "Inr i \<in> set (map (map_sum id fst) (runProgram convInfo p env))"
proof -
  note ids = invocationIds_rank4[OF assms(1,3) isSafeInteger_factor[OF assms(4,7) safe(3)] safe]
  obtain gx gy gz :: nat where g: "int gx < s1" "int gy < s2" "int gz < s0 * s3"
    and idx: "getFlatIndex (int gz div s3, int gx, int gy, int gz - int gz div s3 * s3) (s0, s1, s2, s3) = i"
    using grid_index_onto[OF assms(4-7,10,11)] by blast
  have "s1 \<le> \<lceil>real_of_int s1 / 2\<rceil> * 2" "s2 \<le> \<lceil>real_of_int s2 / 2\<rceil> * 2"
    by (rule ceil_half_cover)+
  then have "(gx, gy, gz) \<in> set (invocationIds p)"
    using g unfolding ids(1) by auto
  then show ?thesis
    unfolding runProgram_indices[OF assms(2,3,8,9)] using idx by force
qed

theorem every_output_index_written_witness:
  "\<exists>p. MaxPoolProgram ivecDataType oddGeometry = Inr p
      \<and> Inr 8 \<in> set (map (map_sum id fst) (runProgram oddGeometry p (envOf [] (0, 0, 0))))"
proof -
  have "ivecDataType (length (outShape oddGeometry)) = Inr ''ivec4''"
    by (rule ivecDataType_length) (simp add: oddGeometry_def)
  then obtain p where p: "MaxPoolProgram ivecDataType oddGeometry = Inr p"
    using MaxPoolProgram_succeeds by blast
  have "Inr 8 \<in> set (map (map_sum id fst) (runProgram oddGeometry p (envOf [] (0, 0, 0))))"
    by (rule every_output_index_written[OF p, of 1 3 3 1])
      (simp_all add: oddGeometry_def isSafeInteger_def)
  then show ?thesis
    using p by blast
qed

text \<open>
  Exactness of the writes for even sizes. When, moreover, the height and the width of the
  output are even, the dispatched grid has no surplus invocation: every invocation
  writes, no two invocations write the same flat index, and the indices written are
  exactly those of the output.
\<close>

theorem even_shape_written_once:
  assumes "MaxPoolProgram getCoordsDataType convInfo = Inr p"
    and "length (inShape convInfo) = 4" and "outShape convInfo = [s0, s1, s2, s3]"
    and "0 < s0" and "0 < s1" and "0 < s2" and "0 < s3"
    and "0 < dilationHeight convInfo" and "0 < dilationWidth convInfo"
    and "even s1" and "even s2"
    and safe: "isSafeInteger s1" "isSafeInteger s2" "isSafeInteger (s0 * s3)"
  shows "\<exists>ws. map (map_sum id fst) (runProgram convInfo p env) = map Inr ws
           \<and> distinct ws \<and> set ws = {0..<s0 * s1 * s2 * s3}"
proof -
  note grid = invocationIds_rank4[OF assms(1,3) isSafeInteger_factor[OF assms(4,7) safe(3)] safe]
  let ?W = "\<lambda>(gx, gy, gz). getFlatIndex (int gz div s3, int gx, int gy, int gz - int gz div s3 * s3)
                              (s0, s1, s2, s3)"
  let ?ws = "map ?W (invocationIds p)"
  have ids: "set (invocationIds p) = {(gx, gy, gz). int gx < s1 \<and> int gy < s2 \<and> int gz < s0 * s3}"
    unfolding grid(1) ceil_half_even[OF assms(10)]
      ceil_half_even[OF assms(11)]
    using assms(4-7) by auto
  have run: "map (map_sum id fst) (runProgram convInfo p env) = map Inr ?ws"
    unfolding runProgram_indices[OF assms(2,3,8,9)] by (simp add: case_prod_unfold)
  have inj: "inj_on ?W (set (invocationIds p))"
    unfolding ids
  proof (rule inj_onI)
    fix a b :: "nat \<times> nat \<times> nat"
    assume a: "a \<in> {(gx, gy, gz). int gx < s1 \<and> int gy < s2 \<and> int gz < s0 * s3}"
      and b: "b \<in> {(gx, gy, gz). int gx < s1 \<and> int gy < s2 \<and> int gz < s0 * s3}"
      and eq: "?W a = ?W b"
    obtain gx gy gz where a_def: "a = (gx, gy, gz)" by (cases a)
    obtain gx' gy' gz' where b_def: "b = (gx', gy', gz')" by (cases b)
    have "gx = gx' \<and> gy = gy' \<and> gz = gz'"
      using a b eq unfolding a_def b_def
      by (intro grid_index_unique[OF assms(5-7)]) simp_all
    then show "a = b"
      unfolding a_def b_def by simp
  qed
  have dist: "distinct ?ws"
    using inj grid(2) by (simp add: distinct_map)
  have image: "set ?ws = {0..<s0 * s1 * s2 * s3}"
  proof (rule set_eqI)
    fix i
    show "i \<in> set ?ws \<longleftrightarrow> i \<in> {0..<s0 * s1 * s2 * s3}"
    proof
      assume "i \<in> set ?ws"
      then obtain gx gy gz where g: "int gx < s1" "int gy < s2" "int gz < s0 * s3"
        and i: "i = getFlatIndex (int gz div s3, int gx, int gy, int gz - int gz div s3 * s3) (s0, s1, s2, s3)"
        unfolding set_map ids by auto
      show "i \<in> {0..<s0 * s1 * s2 * s3}"
        unfolding i using grid_index_in_range[OF assms(4-7) g] by simp
    next
      assume "i \<in> {0..<s0 * s1 * s2 * s3}"
      then have "0 \<le> i" "i < s0 * s1 * s2 * s3" by simp_all
      from grid_index_onto[OF assms(4-7) this]
      show "i \<in> set ?ws"
        unfolding set_map ids by force
    qed
  qed
  show ?thesis
    using run dist image by blast
qed

theorem even_shape_written_once_witness:
  "\<exists>p ws. MaxPoolProgram ivecDataType scenarioGeometry = Inr p
      \<and> map (map_sum id fst) (runProgram scenarioGeometry p (envOf [] (0, 0, 0))) = map Inr ws
      \<and> distinct ws \<and> set ws = {0..<4}"
proof -
  have "ivecDataType (length (outShape scenarioGeometry)) = Inr ''ivec4''"
    by (rule ivecDataType_length) (simp add: scenarioGeometry_def)
  then obtain p where p: "MaxPoolProgram ivecDataType scenarioGeometry = Inr p"
    using MaxPoolProgram_succeeds by blast
  have "\<exists>ws. map (map_sum id fst) (runProgram scenarioGeometry p (envOf [] (0, 0, 0))) = map Inr ws
           \<and> distinct ws \<and> set ws = {0..<1 * 2 * 2 * 1}"
    by (rule even_shape_written_once[OF p]) (simp_all add: scenarioGeometry_def isSafeInteger_def)
  then show ?thesis
    using p by auto
qed

section \<open>The window loops: counts and termination\<close>

lemma length_forIndices:
  assumes "0 < step"
  shows "int (length (forIndices bound step w)) = max 0 \<lceil>real_of_int (bound - w) / real_of_int step\<rceil>"
  using assms
proof (induction bound step w rule: forIndices.induct)
  case (1 bound step w)
  show ?case
  proof (cases "w < bound")
    case True
    have pos: "0 < real_of_int (bound - w) / real_of_int step"
      using True 1(2) by simp
    have split: "real_of_int (bound - (w + step)) / real_of_int step
        = real_of_int (bound - w) / real_of_int step - 1"
      using 1(2) by (simp add: field_simps)
    have "0 < \<lceil>real_of_int (bound - w) / real_of_int step\<rceil>"
      using pos by (simp add: ceiling_less_iff)
    then have "max 0 \<lceil>real_of_int (bound - (w + step)) / real_of_int step\<rceil> + 1
        = max 0 \<lceil>real_of_int (bound - w) / real_of_int step\<rceil>"
      unfolding split by (simp add: ceiling_diff_one max_def)
    then show ?thesis
      using 1(1)[OF conjI[OF True 1(2)] 1(2)] by (simp add: forIndices_step[OF True 1(2)])
  next
    case False
    then have "real_of_int (bound - w) / real_of_int step \<le> 0"
      using 1(2) by (simp add: divide_nonpos_pos)
    then have "\<lceil>real_of_int (bound - w) / real_of_int step\<rceil> \<le> 0"
      by (simp add: ceiling_le_iff)
    then show ?thesis
      using False by (simp add: forIndices_done)
  qed
qed

text \<open>
  The window loops run to their end. With positive dilations and non-negative effective
  filter sizes, the row loop is the fold of the row step over the row offsets
  \<open>0, dilationHeight, 2 * dilationHeight, ...\<close> below \<open>effectiveFilterHeight\<close>, of which there are
  \<open>ceil(effectiveFilterHeight / dilationHeight)\<close>; the column loop is the fold over the
  column offsets below \<open>effectiveFilterWidth\<close>, of which there are
  \<open>ceil(effectiveFilterWidth / dilationWidth)\<close>, and the column that it reads at the
  offset \<open>wC\<close> is \<open>xCCorner + wC * dilationWidth\<close>.
\<close>

theorem window_loop_counts:
  assumes "0 < dilationHeight convInfo" and "0 < dilationWidth convInfo"
    and "0 \<le> effectiveFilterHeight convInfo" and "0 \<le> effectiveFilterWidth convInfo"
  shows "rowLoop convInfo env batch d xRCorner xCCorner 0 m
       = Some (foldl (rowStep convInfo env batch d xRCorner xCCorner) m
           (forIndices (effectiveFilterHeight convInfo) (dilationHeight convInfo) 0))
     \<and> int (length (forIndices (effectiveFilterHeight convInfo) (dilationHeight convInfo) 0))
       = \<lceil>real_of_int (effectiveFilterHeight convInfo) / real_of_int (dilationHeight convInfo)\<rceil>
     \<and> colLoop convInfo env batch d xR xCCorner 0 m
       = Some (foldl (\<lambda>m wC. max (getValue convInfo env batch xR
                                    (xCCorner + wC * dilationWidth convInfo) d) m) m
           (forIndices (effectiveFilterWidth convInfo) (dilationWidth convInfo) 0))
     \<and> int (length (forIndices (effectiveFilterWidth convInfo) (dilationWidth convInfo) 0))
       = \<lceil>real_of_int (effectiveFilterWidth convInfo) / real_of_int (dilationWidth convInfo)\<rceil>"
proof -
  have nonneg: "0 \<le> \<lceil>real_of_int e / real_of_int s\<rceil>" if "0 < s" "0 \<le> e" for e s :: int
  proof -
    have "0 \<le> real_of_int e / real_of_int s"
      using that by simp
    then have "- 1 < real_of_int e / real_of_int s"
      by linarith
    then show ?thesis
      by (simp add: zero_le_ceiling)
  qed
  note h = nonneg[OF assms(1,3)] and w = nonneg[OF assms(2,4)]
  show ?thesis
    using rowLoop_fold[OF assms(1,2)] colLoop_fold[OF assms(2)]
      length_forIndices[OF assms(1), of "effectiveFilterHeight convInfo" 0]
      length_forIndices[OF assms(2), of "effectiveFilterWidth convInfo" 0] h w
    by simp
qed

theorem window_loop_counts_witness:
  "int (length (forIndices (effectiveFilterWidth dilatedGeometry) (dilationWidth dilatedGeometry) 0))
     = \<lceil>real_of_int 3 / real_of_int 2\<rceil>
   \<and> colLoop dilatedGeometry (envOf [1, 0, 3, 0, 7] (0, 0, 0)) 0 0 0 0 0 0 = Some 7"
proof -
  have cols: "forIndices (effectiveFilterWidth dilatedGeometry) (dilationWidth dilatedGeometry) 0 = [0, 2]"
    by (simp add: dilatedGeometry_def forIndices_3_2)
  have fields: "effectiveFilterWidth dilatedGeometry = 3" "dilationWidth dilatedGeometry = 2"
    "effectiveFilterHeight dilatedGeometry = 1" "dilationHeight dilatedGeometry = 1"
    "inWidth dilatedGeometry = 5" "inShape dilatedGeometry = [1, 1, 5, 1]"
    by (simp_all add: dilatedGeometry_def)
  show ?thesis
    using window_loop_counts[of dilatedGeometry "envOf [1, 0, 3, 0, 7] (0, 0, 0)" 0 0 0 0 0 0]
    unfolding cols
    by (simp add: fields getValue_def envOf_def bufferOf_def)
qed

lemma rowLoop_Some_nonzero_step:
  assumes "rowLoop convInfo env batch d xRCorner xCCorner wR m = Some r"
  shows "\<not> (dilationHeight convInfo = 0 \<and> wR < effectiveFilterHeight convInfo)"
proof (rule rowLoop.raw_induct[where P = "\<lambda>convInfo env batch d xRCorner xCCorner wR m r.
    \<not> (dilationHeight convInfo = 0 \<and> wR < effectiveFilterHeight convInfo)", OF _ assms], goal_cases)
  case (1 rowLoop' convInfo env batch d xRCorner xCCorner wR m r)
  show ?case
  proof
    assume bad: "dilationHeight convInfo = 0 \<and> wR < effectiveFilterHeight convInfo"
    then have next_bad: "dilationHeight convInfo = 0
        \<and> wR + dilationHeight convInfo < effectiveFilterHeight convInfo"
      by simp
    show False
    proof (cases "xRCorner + wR < 0 \<or> xRCorner + wR \<ge> inHeight convInfo")
      case True
      then have "rowLoop' convInfo env batch d xRCorner xCCorner (wR + dilationHeight convInfo) m = Some r"
        using 1(2) bad by (simp add: Let_def)
      from 1(1)[OF this] next_bad show False by simp
    next
      case False
      then have "Option.bind (colLoop convInfo env batch d (xRCorner + wR) xCCorner 0 m)
          (rowLoop' convInfo env batch d xRCorner xCCorner (wR + dilationHeight convInfo)) = Some r"
        using 1(2) bad by (simp add: Let_def)
      then obtain m' where
        "rowLoop' convInfo env batch d xRCorner xCCorner (wR + dilationHeight convInfo) m' = Some r"
        by (auto simp add: bind_eq_Some_conv)
      from 1(1)[OF this] next_bad show False by simp
    qed
  qed
qed

lemma rowLoop_diverges:
  assumes "dilationHeight convInfo = 0" and "wR < effectiveFilterHeight convInfo"
  shows "rowLoop convInfo env batch d xRCorner xCCorner wR m = None"
proof (cases "rowLoop convInfo env batch d xRCorner xCCorner wR m")
  case None
  then show ?thesis .
next
  case (Some r)
  from rowLoop_Some_nonzero_step[OF Some] assms show ?thesis by simp
qed

text \<open>
  A row dilation of zero. The generator prints the dilation as the step of the row loop
  without a check; when the step is zero and the effective filter height is positive, the
  loop counter stays below its bound, and the invocation never writes.
\<close>

theorem zero_row_dilation_diverges:
  assumes "length (inShape convInfo) = 4" and "length (outShape convInfo) = 4"
    and "dilationHeight convInfo = 0" and "0 < effectiveFilterHeight convInfo"
  shows "main convInfo env = Inl Diverges"
proof -
  obtain s0 s1 s2 s3 where shape: "outShape convInfo = [s0, s1, s2, s3]"
    using assms(2) by (auto simp add: length_Suc_conv eval_nat_numeral)
  obtain gx gy gz where gid: "gl_GlobalInvocationID env = (gx, gy, gz)"
    by (cases "gl_GlobalInvocationID env")
  show ?thesis
    unfolding main_rank4[OF assms(1) shape gid] rowLoop_diverges[OF assms(3,4)] by simp
qed

theorem zero_row_dilation_diverges_witness:
  "main (scenarioGeometry\<lparr>dilationHeight := 0\<rparr>)
     (envOf [1, 2, 3, 4, 5, 6, 7, 8, 9, 10, 11, 12, 13, 14, 15, 16] (0, 0, 0)) = Inl Diverges"
  using zero_row_dilation_diverges[of "scenarioGeometry\<lparr>dilationHeight := 0\<rparr>"
      "envOf [1, 2, 3, 4, 5, 6, 7, 8, 9, 10, 11, 12, 13, 14, 15, 16] (0, 0, 0)"]
  by (simp add: scenarioGeometry_def)

section \<open>The value written by an invocation\<close>

text \<open>
  The write of one invocation. For shapes of four entries and positive dilations, the
  invocation \<open>(gx, gy, gz)\<close> writes, at the flat index of the coordinates
  \<open>(gz div s3, gx, gy, gz mod s3)\<close> in the output shape, the maximum of 0 and of the
  values read in its window: the fold of the row step, from 0, over the row offsets.
\<close>

theorem invocation_writes_window_maximum:
  assumes "length (inShape convInfo) = 4" and "outShape convInfo = [s0, s1, s2, s3]"
    and "gl_GlobalInvocationID env = (gx, gy, gz)"
    and "0 < dilationHeight convInfo" and "0 < dilationWidth convInfo"
  shows "main convInfo env =
     Inr (getFlatIndex (int gz div s3, int gx, int gy, int gz - int gz div s3 * s3) (s0, s1, s2, s3),
          foldl (rowStep convInfo env (int gz div s3) (int gz - int gz div s3 * s3)
                   (int gx * strideHeight convInfo - pad_top (padInfo convInfo))
                   (int gy * strideWidth convInfo - pad_left (padInfo convInfo)))
            0 (forIndices (effectiveFilterHeight convInfo) (dilationHeight convInfo) 0))"
  using assms by (rule main_window_max)

theorem invocation_writes_window_maximum_witness:
  "main scenarioGeometry (envOf [1, 2, 3, 4, 5, 6, 7, 8, 9, 10, 11, 12, 13, 14, 15, 16] (0, 0, 0))
     = Inr (0, 6)"
proof -
  let ?env = "envOf [1, 2, 3, 4, 5, 6, 7, 8, 9, 10, 11, 12, 13, 14, 15, 16] (0, 0, 0)"
  have rows: "forIndices (effectiveFilterHeight scenarioGeometry) (dilationHeight scenarioGeometry) 0 = [0, 1]"
    and cols: "forIndices (effectiveFilterWidth scenarioGeometry) (dilationWidth scenarioGeometry) 0 = [0, 1]"
    by (simp_all add: scenarioGeometry_def forIndices_2_1)
  have step: "rowStep scenarioGeometry ?env 0 0 0 0 m 0 = max 2 (max 1 m)"
    "rowStep scenarioGeometry ?env 0 0 0 0 m 1 = max 6 (max 5 m)" for m
    unfolding rowStep_def cols
    by (simp_all add: scenarioGeometry_def getValue_def envOf_def bufferOf_def)
  have "main scenarioGeometry ?env
      = Inr (getFlatIndex (int 0 div 1, int 0, int 0, int 0 - int 0 div 1 * 1) (1, 2, 2, 1),
          foldl (rowStep scenarioGeometry ?env (int 0 div 1) (int 0 - int 0 div 1 * 1)
                   (int 0 * strideHeight scenarioGeometry - pad_top (padInfo scenarioGeometry))
                   (int 0 * strideWidth scenarioGeometry - pad_left (padInfo scenarioGeometry)))
            0 (forIndices (effectiveFilterHeight scenarioGeometry) (dilationHeight scenarioGeometry) 0))"
    by (rule invocation_writes_window_maximum) (simp_all add: scenarioGeometry_def envOf_def)
  moreover have "pad_top (padInfo scenarioGeometry) = 0" "pad_left (padInfo scenarioGeometry) = 0"
    by (simp_all add: scenarioGeometry_def)
  ultimately show ?thesis
    unfolding rows by (simp add: step)
qed

lemma scenario_invocation:
  assumes "gx < 2" and "gy < 2"
  shows "main scenarioGeometry (envOf [1, 2, 3, 4, 5, 6, 7, 8, 9, 10, 11, 12, 13, 14, 15, 16] (gx, gy, 0))
   = Inr (int gx * 2 + int gy,
          max (bufferOf [1, 2, 3, 4, 5, 6, 7, 8, 9, 10, 11, 12, 13, 14, 15, 16] (int gx * 8 + int gy * 2 + 5))
           (max (bufferOf [1, 2, 3, 4, 5, 6, 7, 8, 9, 10, 11, 12, 13, 14, 15, 16] (int gx * 8 + int gy * 2 + 4))
             (max (bufferOf [1, 2, 3, 4, 5, 6, 7, 8, 9, 10, 11, 12, 13, 14, 15, 16] (int gx * 8 + int gy * 2 + 1))
               (max (bufferOf [1, 2, 3, 4, 5, 6, 7, 8, 9, 10, 11, 12, 13, 14, 15, 16] (int gx * 8 + int gy * 2)) 0))))"
proof -
  let ?env = "envOf [1, 2, 3, 4, 5, 6, 7, 8, 9, 10, 11, 12, 13, 14, 15, 16] (gx, gy, 0)"
  have rows: "forIndices (effectiveFilterHeight scenarioGeometry) (dilationHeight scenarioGeometry) 0 = [0, 1]"
    and cols: "forIndices (effectiveFilterWidth scenarioGeometry) (dilationWidth scenarioGeometry) 0 = [0, 1]"
    by (simp_all add: scenarioGeometry_def forIndices_2_1)
  have fields: "inHeight scenarioGeometry = 4" "inWidth scenarioGeometry = 4"
    "dilationWidth scenarioGeometry = 1" "inShape scenarioGeometry = [1, 4, 4, 1]"
    "strideHeight scenarioGeometry = 2" "strideWidth scenarioGeometry = 2"
    "pad_top (padInfo scenarioGeometry) = 0" "pad_left (padInfo scenarioGeometry) = 0"
    by (simp_all add: scenarioGeometry_def)
  have buf: "buf_x ?env = bufferOf [1, 2, 3, 4, 5, 6, 7, 8, 9, 10, 11, 12, 13, 14, 15, 16]"
    by (simp add: envOf_def)
  have step: "rowStep scenarioGeometry ?env 0 0 (int gx * 2) (int gy * 2) m wR
      = max (buf_x ?env ((int gx * 2 + wR) * 4 + (int gy * 2 + 1)))
          (max (buf_x ?env ((int gx * 2 + wR) * 4 + int gy * 2)) m)"
    if "wR = 0 \<or> wR = 1" for m wR
    unfolding rowStep_def cols using that assms
    by (auto simp add: fields getValue_def)
  have "main scenarioGeometry ?env
      = Inr (getFlatIndex (int 0 div 1, int gx, int gy, int 0 - int 0 div 1 * 1) (1, 2, 2, 1),
          foldl (rowStep scenarioGeometry ?env (int 0 div 1) (int 0 - int 0 div 1 * 1)
                   (int gx * strideHeight scenarioGeometry - pad_top (padInfo scenarioGeometry))
                   (int gy * strideWidth scenarioGeometry - pad_left (padInfo scenarioGeometry)))
            0 [0, 1])"
    unfolding rows[symmetric]
    by (rule main_window_max) (simp_all add: scenarioGeometry_def envOf_def)
  then show ?thesis
    by (simp add: fields step buf algebra_simps)
qed

text \<open>
  The pooling of a 4 x 4 image by a 2 x 2 window with stride 2. On the input
  \<open>1, 2, ..., 16\<close> in row-major order, the four invocations of the grid write the maxima
  of the four quadrants: 6, 8, 14 and 16, at the flat indices 0, 1, 2 and 3.
\<close>

theorem scenario_outputs:
  "\<exists>p. MaxPoolProgram ivecDataType scenarioGeometry = Inr p
      \<and> runProgram scenarioGeometry p
            (envOf [1, 2, 3, 4, 5, 6, 7, 8, 9, 10, 11, 12, 13, 14, 15, 16] (0, 0, 0))
          = [Inr (0, 6), Inr (1, 8), Inr (2, 14), Inr (3, 16)]"
proof -
  have "ivecDataType (length (outShape scenarioGeometry)) = Inr ''ivec4''"
    by (rule ivecDataType_length) (simp add: scenarioGeometry_def)
  then obtain p where p: "MaxPoolProgram ivecDataType scenarioGeometry = Inr p"
    using MaxPoolProgram_succeeds by blast
  have "computeDispatch (outShape scenarioGeometry) init_tileSize = Inr (Num 1, Num 1, Num 1)"
    by (simp add: scenarioGeometry_def computeDispatch_rank4 isSafeInteger_def)
  then have dp: "dispatch p = (Num 1, Num 1, Num 1)"
    using MaxPoolProgram_fields(5)[OF p] by simp
  have ids: "invocationIds p = [(0, 0, 0), (0, 1, 0), (1, 0, 0), (1, 1, 0)]"
    unfolding invocationIds_def dp MaxPoolProgram_fields(4)[OF p] by (simp add: upt_rec)
  have env: "envOf xs g\<lparr>gl_GlobalInvocationID := g'\<rparr> = envOf xs g'" for xs g g'
    by (simp add: envOf_def)
  have "runProgram scenarioGeometry p
            (envOf [1, 2, 3, 4, 5, 6, 7, 8, 9, 10, 11, 12, 13, 14, 15, 16] (0, 0, 0))
          = [Inr (0, 6), Inr (1, 8), Inr (2, 14), Inr (3, 16)]"
    unfolding runProgram_def ids
    using scenario_invocation[of 0 0] scenario_invocation[of 0 1] scenario_invocation[of 1 0]
      scenario_invocation[of 1 1]
    by (simp add: env bufferOf_def)
  then show ?thesis
    using p by blast
qed

end
